theory Spec2Isabelle
  imports Main
begin

section \<open>JavaScript strings\<close>

text \<open>
  A JavaScript string is a sequence of UTF-16 code units. The model is the fragment whose
  code units lie in 0..255 (the Basic Latin and Latin-1 blocks), one \<^typ>\<open>char\<close> per
  code unit, so that \<^const>\<open>length\<close> is the \<^verbatim>\<open>length\<close> property and \<^const>\<open>take\<close> is
  \<^verbatim>\<open>slice(0, n)\<close>. Code units above 255 are outside the model.
\<close>

definition isWhiteSpace :: "char \<Rightarrow> bool" where
  \<comment> \<open>ECMAScript WhiteSpace and LineTerminator below 256: TAB, LF, VT, FF, CR, SP, NBSP.\<close>
  "isWhiteSpace c = (of_char c \<in> {9, 10, 11, 12, 13, 32, 160 :: nat})"

definition trim :: "string \<Rightarrow> string" where
  \<comment> \<open>\<^verbatim>\<open>String.prototype.trim\<close>: white space removed from both ends.\<close>
  "trim s = rev (dropWhile isWhiteSpace (rev (dropWhile isWhiteSpace s)))"

definition toLowerCaseUnit :: "char \<Rightarrow> char" where
  \<comment> \<open>The lower-case mapping below 256: A..Z, and the Latin-1 capitals except the
      multiplication sign (215); every other code unit is its own lower case.\<close>
  "toLowerCaseUnit c =
     (let n = (of_char c :: nat)
      in if (65 \<le> n \<and> n \<le> 90) \<or> (192 \<le> n \<and> n \<le> 222 \<and> n \<noteq> 215)
         then char_of (n + 32) else c)"

definition toLowerCase :: "string \<Rightarrow> string" where
  "toLowerCase s = map toLowerCaseUnit s"

fun split_from :: "char \<Rightarrow> string \<Rightarrow> string \<Rightarrow> string list" where
  \<comment> \<open>The scan of \<^verbatim>\<open>String.prototype.split\<close> for a one-unit separator: the second
      argument holds, reversed, the units read since the last separator.\<close>
  "split_from sep acc [] = [rev acc]"
| "split_from sep acc (c # cs) =
     (if c = sep then rev acc # split_from sep [] cs else split_from sep (c # acc) cs)"

definition split :: "char \<Rightarrow> string \<Rightarrow> string list" where
  \<comment> \<open>\<^verbatim>\<open>s.split(sep)\<close>; the empty string gives one empty segment.\<close>
  "split sep s = split_from sep [] s"

fun join :: "string \<Rightarrow> string list \<Rightarrow> string" where
  \<comment> \<open>\<^verbatim>\<open>xs.join(sep)\<close> on an array of strings.\<close>
  "join sep [] = []"
| "join sep [x] = x"
| "join sep (x # y # ys) = x @ sep @ join sep (y # ys)"

section \<open>The volunteer profile page\<close>

record volunteer =
  v_id :: int
  first_name :: string
  last_name :: string
  v_email :: string
  date_of_birth :: string
  gender :: string
  v_description :: "string option"

text \<open>\<^verbatim>\<open>VolunteerProfileResponse\<close>: \<^verbatim>\<open>cv\<close> and \<^verbatim>\<open>privacy\<close> are \<^verbatim>\<open>string | null\<close>.\<close>

record VolunteerProfileResponse =
  r_volunteer :: volunteer
  r_skills :: "string list"
  r_cv :: "string option"
  r_privacy :: "string option"
  unavailableFields :: "string list"

text \<open>
  \<^verbatim>\<open>ProfileFormState\<close>. The privacy field is a string at run time: \<^verbatim>\<open>updateForm\<close> stores
  whatever string it is given.
\<close>

record ProfileFormState =
  description :: string
  skills :: string
  cv :: string
  privacy :: string

definition DESCRIPTION_MAX_LENGTH :: nat where
  "DESCRIPTION_MAX_LENGTH = 300"

definition getDefaultFormState :: "VolunteerProfileResponse \<Rightarrow> ProfileFormState" where
  "getDefaultFormState profile =
     \<lparr> description = (case v_description (r_volunteer profile) of None \<Rightarrow> [] | Some d \<Rightarrow> d),
       skills = join '', '' (r_skills profile),
       cv = (case r_cv profile of None \<Rightarrow> [] | Some c \<Rightarrow> c),
       privacy = (if r_privacy profile = Some ''private'' then ''private'' else ''public'') \<rparr>"

text \<open>A thrown JavaScript value: an \<^verbatim>\<open>Error\<close> with its message, or anything else.\<close>

datatype thrown_value = ErrorObject string | OtherValue

text \<open>The body of the PUT request, the object given to \<^verbatim>\<open>JSON.stringify\<close>.\<close>

record profile_update =
  u_description :: string
  u_skills :: "string list"
  u_cv :: "string option"
  u_privacy :: string

datatype request = GetProfile | PutProfile profile_update

text \<open>The component's state: one field per \<^verbatim>\<open>useState\<close> hook.\<close>

record page_state =
  profile :: "VolunteerProfileResponse option"
  form :: ProfileFormState
  loading :: bool
  saving :: bool
  fetchError :: "string option"
  saveError :: "string option"
  saveMessage :: "string option"
  isEditMode :: bool

definition initial_state :: page_state where
  "initial_state =
     \<lparr> profile = None,
       form = \<lparr> description = [], skills = [], cv = [], privacy = ''public'' \<rparr>,
       loading = True, saving = False, fetchError = None, saveError = None,
       saveMessage = None, isEditMode = False \<rparr>"

text \<open>
  \<^verbatim>\<open>requestServer\<close> is not part of the page: it is a parameter that answers a request
  with the parsed response or throws.
\<close>

definition loadProfile ::
  "(request \<Rightarrow> thrown_value + VolunteerProfileResponse) \<Rightarrow> page_state \<Rightarrow> page_state" where
  "loadProfile requestServer st =
     (let st1 = st\<lparr>loading := True, fetchError := None\<rparr>;
          st2 = (case requestServer GetProfile of
                   Inr response \<Rightarrow>
                     st1\<lparr>profile := Some response, form := getDefaultFormState response\<rparr>
                 | Inl (ErrorObject m) \<Rightarrow> st1\<lparr>fetchError := Some m\<rparr>
                 | Inl OtherValue \<Rightarrow> st1\<lparr>fetchError := Some ''Failed to load profile''\<rparr>)
      in st2\<lparr>loading := False\<rparr>)"

definition parsedSkills :: "string \<Rightarrow> string list" where
  \<comment> \<open>\<^verbatim>\<open>filter(Boolean)\<close> keeps the strings that are not empty.\<close>
  "parsedSkills s = filter (\<lambda>skill. skill \<noteq> []) (map trim (split CHR '','' s))"

datatype field = Description | Skills | Cv | Privacy

fun set_field :: "field \<Rightarrow> string \<Rightarrow> ProfileFormState \<Rightarrow> ProfileFormState" where
  \<comment> \<open>\<^verbatim>\<open>{ ...prev, [field]: nextValue }\<close>\<close>
  "set_field Description v f = f\<lparr>description := v\<rparr>"
| "set_field Skills v f = f\<lparr>skills := v\<rparr>"
| "set_field Cv v f = f\<lparr>cv := v\<rparr>"
| "set_field Privacy v f = f\<lparr>privacy := v\<rparr>"

definition updateForm :: "field \<Rightarrow> string \<Rightarrow> page_state \<Rightarrow> page_state" where
  "updateForm fld v st =
     (let nextValue = (if fld = Description then take DESCRIPTION_MAX_LENGTH v else v)
      in st\<lparr>form := set_field fld nextValue (form st), saveError := None, saveMessage := None\<rparr>)"

definition save_request :: "ProfileFormState \<Rightarrow> profile_update" where
  \<comment> \<open>\<^verbatim>\<open>form.cv || null\<close>: the empty string is sent as null.\<close>
  "save_request f =
     \<lparr> u_description = description f,
       u_skills = parsedSkills (skills f),
       u_cv = (if cv f = [] then None else Some (cv f)),
       u_privacy = privacy f \<rparr>"

definition onSave ::
  "(request \<Rightarrow> thrown_value + VolunteerProfileResponse) \<Rightarrow> page_state \<Rightarrow> page_state" where
  "onSave requestServer st =
     (if \<not> isEditMode st \<or> profile st = None then st
      else
        let st1 = st\<lparr>saving := True, saveError := None, saveMessage := None\<rparr>;
            st2 = (case requestServer (PutProfile (save_request (form st))) of
                     Inr response \<Rightarrow>
                       st1\<lparr>profile := Some response, form := getDefaultFormState response,
                           saveMessage := Some ''Profile changes saved.'', isEditMode := False\<rparr>
                   | Inl (ErrorObject m) \<Rightarrow> st1\<lparr>saveError := Some m\<rparr>
                   | Inl OtherValue \<Rightarrow> st1\<lparr>saveError := Some ''Failed to save profile''\<rparr>)
        in st2\<lparr>saving := False\<rparr>)"

definition onCancelEdit :: "page_state \<Rightarrow> page_state" where
  "onCancelEdit st =
     (case profile st of
        None \<Rightarrow> st
      | Some p \<Rightarrow> st\<lparr>form := getDefaultFormState p, isEditMode := False,
                     saveError := None, saveMessage := None\<rparr>)"

definition onEditProfile :: "page_state \<Rightarrow> page_state" where
  \<comment> \<open>The Edit Profile button: \<^verbatim>\<open>setIsEditMode(true)\<close>.\<close>
  "onEditProfile st = st\<lparr>isEditMode := True\<rparr>"

definition edits :: "(field \<times> string) list \<Rightarrow> page_state \<Rightarrow> page_state" where
  \<comment> \<open>A sequence of change events, each handled by \<^const>\<open>updateForm\<close>.\<close>
  "edits es st = fold (\<lambda>(fld, v). updateForm fld v) es st"

text \<open>
  What the rendered page lets the user do. The mount effect loads the profile; Retry is
  shown with a fetch error; the Edit button and, in edit mode, the inputs and the Save and
  Cancel buttons are rendered only once a profile is shown. While a request is awaited
  every control is disabled, so each handler runs to its end before the next event.
\<close>

definition shows_profile :: "page_state \<Rightarrow> bool" where
  "shows_profile st =
     (\<not> loading st \<and> (fetchError st = None \<or> fetchError st = Some []) \<and> profile st \<noteq> None)"

inductive reachable_page :: "page_state \<Rightarrow> bool" where
  mount: "reachable_page (loadProfile requestServer initial_state)"
| retry: "reachable_page st \<Longrightarrow> \<not> loading st \<Longrightarrow> fetchError st = Some m \<Longrightarrow> m \<noteq> [] \<Longrightarrow>
          reachable_page (loadProfile requestServer st)"
| edit: "reachable_page st \<Longrightarrow> shows_profile st \<Longrightarrow> \<not> isEditMode st \<Longrightarrow>
         reachable_page (onEditProfile st)"
| change: "reachable_page st \<Longrightarrow> shows_profile st \<Longrightarrow> isEditMode st \<Longrightarrow>
           reachable_page (updateForm fld v st)"
| save: "reachable_page st \<Longrightarrow> shows_profile st \<Longrightarrow> isEditMode st \<Longrightarrow>
         reachable_page (onSave requestServer st)"
| cancel: "reachable_page st \<Longrightarrow> shows_profile st \<Longrightarrow> isEditMode st \<Longrightarrow>
           reachable_page (onCancelEdit st)"

text \<open>A profile as the server returns it, for the examples below.\<close>

definition example_profile :: VolunteerProfileResponse where
  "example_profile =
     \<lparr>r_volunteer =
        \<lparr>v_id = 7, first_name = ''Lina'', last_name = ''Haddad'', v_email = ''lina@example.org'',
         date_of_birth = ''1999-04-12'', gender = ''female'',
         v_description = Some ''Weekend volunteer''\<rparr>,
      r_skills = [''Teaching'', ''First Aid''], r_cv = None, r_privacy = Some ''private'',
      unavailableFields = [''cv'']\<rparr>"

text \<open>
  Splitting a string on commas, as a relation: the segments hold no comma and, joined by
  commas, give the string back.
\<close>

definition comma_segments :: "string \<Rightarrow> string list \<Rightarrow> bool" where
  "comma_segments s segs =
     (segs \<noteq> [] \<and> list_all (\<lambda>g. CHR '','' \<notin> set g) segs \<and> join '','' segs = s)"

section \<open>The database\<close>

subsection \<open>Schema definitions\<close>

datatype col_type = Serial | Varchar "nat option" | Numeric

record column_def =
  col_name :: string
  col_type :: col_type
  is_primary_key :: bool
  is_not_null :: bool
  is_unique :: bool

record table_def =
  table_name :: string
  columns :: "column_def list"

text \<open>The column builder: \<^verbatim>\<open>col => col.notNull().unique()\<close> is \<open>unique \<circ> notNull\<close>.\<close>

definition primaryKey :: "column_def \<Rightarrow> column_def" where
  "primaryKey col = col\<lparr>is_primary_key := True\<rparr>"

definition notNull :: "column_def \<Rightarrow> column_def" where
  "notNull col = col\<lparr>is_not_null := True\<rparr>"

definition unique :: "column_def \<Rightarrow> column_def" where
  "unique col = col\<lparr>is_unique := True\<rparr>"

definition plain :: "column_def \<Rightarrow> column_def" where
  \<comment> \<open>A column added without a builder.\<close>
  "plain col = col"

definition createTable :: "string \<Rightarrow> table_def" where
  "createTable t = \<lparr>table_name = t, columns = []\<rparr>"

definition addColumn ::
  "string \<Rightarrow> col_type \<Rightarrow> (column_def \<Rightarrow> column_def) \<Rightarrow> table_def \<Rightarrow> table_def" where
  "addColumn c ty build t =
     t\<lparr>columns := columns t @
          [build \<lparr>col_name = c, col_type = ty, is_primary_key = False,
                  is_not_null = False, is_unique = False\<rparr>]\<rparr>"

definition chain :: "'a \<Rightarrow> ('a \<Rightarrow> 'a) list \<Rightarrow> 'a" where
  \<comment> \<open>A chain of builder calls, applied from the first to the last.\<close>
  "chain x fs = fold (\<lambda>f. f) fs x"

definition organization_account_table :: table_def where
  "organization_account_table =
     chain (createTable ''organization_account'')
       [addColumn ''id'' Serial primaryKey,
        addColumn ''name'' (Varchar None) notNull,
        addColumn ''email'' (Varchar (Some 128)) (unique \<circ> notNull),
        addColumn ''phone_number'' (Varchar (Some 32)) (unique \<circ> notNull),
        addColumn ''url'' (Varchar (Some 256)) (unique \<circ> notNull),
        addColumn ''latitude'' Numeric plain,
        addColumn ''longitude'' Numeric plain,
        addColumn ''password'' (Varchar (Some 256)) (unique \<circ> notNull),
        addColumn ''location_name'' (Varchar (Some 256)) notNull]"

definition organization_request_table :: table_def where
  "organization_request_table =
     chain (createTable ''organization_request'')
       [addColumn ''id'' Serial primaryKey,
        addColumn ''email'' (Varchar (Some 128)) (unique \<circ> notNull),
        addColumn ''name'' (Varchar (Some 128)) notNull,
        addColumn ''phone_number'' (Varchar (Some 32)) plain,
        addColumn ''url'' (Varchar (Some 256)) (unique \<circ> notNull),
        addColumn ''latitude'' Numeric plain,
        addColumn ''longitude'' Numeric plain,
        addColumn ''location_name'' (Varchar (Some 256)) notNull]"

definition volunteer_account_table :: table_def where
  "volunteer_account_table =
     chain (createTable ''volunteer_account'')
       [addColumn ''id'' Serial primaryKey,
        addColumn ''first_name'' (Varchar (Some 128)) notNull,
        addColumn ''last_name'' (Varchar (Some 128)) notNull,
        addColumn ''gender'' (Varchar (Some 64)) notNull,
        addColumn ''email'' (Varchar (Some 128)) (unique \<circ> notNull),
        addColumn ''phone_number'' (Varchar (Some 32)) (unique \<circ> notNull),
        addColumn ''password'' (Varchar (Some 256)) (unique \<circ> notNull)]"

definition admin_account_table :: table_def where
  "admin_account_table =
     chain (createTable ''admin_account'')
       [addColumn ''id'' Serial primaryKey,
        addColumn ''email'' (Varchar (Some 128)) (unique \<circ> notNull),
        addColumn ''first_name'' (Varchar (Some 64)) notNull,
        addColumn ''last_name'' (Varchar (Some 64)) notNull]"

subsection \<open>Database states\<close>

text \<open>
  The database engine is outside the repository. Its model keeps, for every table the
  migration creates, the rows in insertion order, and enforces on every insert and update
  what the column definitions declare: the column type and width, NOT NULL, UNIQUE and the
  primary key. A text holding the code unit 0 is refused, and a serial column is a 32-bit
  integer fed by a sequence. Coordinates are values of an uninterpreted type \<open>'n\<close>,
  stored and returned as they are.
\<close>

datatype 'n sql_value = NullV | IntV int | TextV string | NumV 'n

type_synonym 'n row = "(string \<times> 'n sql_value) list"

datatype db_error =
    DuplicateTable string
  | UndefinedTable string
  | UndefinedColumn string
  | DatatypeMismatch string
  | InvalidByteSequence
  | NumericValueOutOfRange string
  | StringTooLong string
  | SequenceLimit string
  | NotNullViolation string
  | UniqueViolation string

record 'n database =
  catalog :: "table_def list"
  contents :: "string \<Rightarrow> 'n row list"
  sequences :: "string \<Rightarrow> string \<Rightarrow> int"

definition empty_database :: "'n database" where
  "empty_database = \<lparr>catalog = [], contents = (\<lambda>t. []), sequences = (\<lambda>t c. 0)\<rparr>"

definition execute :: "table_def \<Rightarrow> 'n database \<Rightarrow> db_error + 'n database" where
  \<comment> \<open>CREATE TABLE: refused when the name is taken.\<close>
  "execute t db =
     (if table_name t \<in> set (map table_name (catalog db)) then Inl (DuplicateTable (table_name t))
      else Inr (db\<lparr>catalog := catalog db @ [t],
                   contents := (contents db)(table_name t := []),
                   sequences := (sequences db)(table_name t := (\<lambda>c. 0))\<rparr>))"

definition and_then :: "'e + 'a \<Rightarrow> ('a \<Rightarrow> 'e + 'b) \<Rightarrow> 'e + 'b" where
  \<comment> \<open>\<^verbatim>\<open>await\<close> in sequence: the first rejection ends the function.\<close>
  "and_then r f = (case r of Inl e \<Rightarrow> Inl e | Inr x \<Rightarrow> f x)"

definition up :: "'n database \<Rightarrow> db_error + 'n database" where
  "up db =
     and_then (and_then (and_then
       (execute organization_account_table db)
       (execute organization_request_table))
       (execute volunteer_account_table))
       (execute admin_account_table)"

definition migrated_catalog :: "table_def list" where
  "migrated_catalog =
     [organization_account_table, organization_request_table,
      volunteer_account_table, admin_account_table]"

definition table_named :: "'n database \<Rightarrow> string \<Rightarrow> table_def option" where
  "table_named db t = find (\<lambda>td. table_name td = t) (catalog db)"

definition store_varchar :: "nat option \<Rightarrow> string \<Rightarrow> string option" where
  \<comment> \<open>A string longer than the declared width is an error, unless only spaces are cut off.\<close>
  "store_varchar w s =
     (case w of
        None \<Rightarrow> Some s
      | Some n \<Rightarrow>
          if length s \<le> n then Some s
          else if list_all (\<lambda>c. c = CHR '' '') (drop n s) then Some (take n s)
          else None)"

definition holds_nul :: "string \<Rightarrow> bool" where
  \<comment> \<open>The string holds the code unit 0, which no text value of the database may hold.\<close>
  "holds_nul s = list_ex (\<lambda>u. of_char u = (0::nat)) s"

definition in_int4 :: "int \<Rightarrow> bool" where
  \<comment> \<open>The range of a serial column, a 32-bit integer.\<close>
  "in_int4 i = (- 2147483648 \<le> i \<and> i \<le> 2147483647)"

fun receive :: "string \<Rightarrow> col_type \<Rightarrow> 'n sql_value \<Rightarrow> db_error option" where
  \<comment> \<open>What the database refuses when it reads a parameter of the statement. A value of
      another kind than the column's is refused: the conversions of the driver are not
      modelled.\<close>
  "receive c ty NullV = None"
| "receive c Serial (IntV i) = (if in_int4 i then None else Some (NumericValueOutOfRange c))"
| "receive c (Varchar w) (TextV s) = (if holds_nul s then Some InvalidByteSequence else None)"
| "receive c Numeric (NumV x) = None"
| "receive c ty v = Some (DatatypeMismatch c)"

fun bind_values :: "column_def list \<Rightarrow> 'n row \<Rightarrow> db_error option" where
  \<comment> \<open>The parameters are read in the order of the statement; the first one refused ends it.\<close>
  "bind_values cols [] = None"
| "bind_values cols ((k, v) # vals) =
     (case find (\<lambda>c. col_name c = k) cols of
        None \<Rightarrow> bind_values cols vals
      | Some c \<Rightarrow>
          (case receive k (col_type c) v of
             Some e \<Rightarrow> Some e
           | None \<Rightarrow> bind_values cols vals))"

fun coerce :: "string \<Rightarrow> col_type \<Rightarrow> 'n sql_value \<Rightarrow> db_error + 'n sql_value" where
  \<comment> \<open>The conversion of a parameter to the declared width of its column.\<close>
  "coerce c (Varchar w) (TextV s) =
     (case store_varchar w s of None \<Rightarrow> Inl (StringTooLong c) | Some s' \<Rightarrow> Inr (TextV s'))"
| "coerce c ty v = Inr v"

fun convert_values :: "'n row \<Rightarrow> column_def list \<Rightarrow> db_error + 'n row" where
  \<comment> \<open>The supplied values are converted, in the order of the columns, when the statement is
      planned: before any default is computed and before any constraint is checked.\<close>
  "convert_values vals [] = Inr []"
| "convert_values vals (c # cs) =
     (case map_of vals (col_name c) of
        None \<Rightarrow> convert_values vals cs
      | Some v \<Rightarrow>
          (case coerce (col_name c) (col_type c) v of
             Inl e \<Rightarrow> Inl e
           | Inr v' \<Rightarrow>
               (case convert_values vals cs of
                  Inl e \<Rightarrow> Inl e
                | Inr r \<Rightarrow> Inr ((col_name c, v') # r))))"

definition takes_default :: "'n row \<Rightarrow> column_def \<Rightarrow> bool" where
  \<comment> \<open>A serial column without a supplied value takes the next value of its sequence.\<close>
  "takes_default vals c = (col_type c = Serial \<and> map_of vals (col_name c) = None)"

definition column_value ::
  "(string \<Rightarrow> int) \<Rightarrow> 'n row \<Rightarrow> column_def \<Rightarrow> db_error + 'n sql_value" where
  \<comment> \<open>The value stored in one column: the supplied one, converted, or the default (the next
      value of the sequence for a serial column, NULL otherwise). A serial column and a
      primary key are NOT NULL.\<close>
  "column_value seqs supplied c =
     (let v = (case map_of supplied (col_name c) of
                 Some v \<Rightarrow> v
               | None \<Rightarrow> if col_type c = Serial then IntV (seqs (col_name c) + 1) else NullV)
      in if v = NullV \<and> (is_not_null c \<or> is_primary_key c \<or> col_type c = Serial)
         then Inl (NotNullViolation (col_name c)) else Inr v)"

fun build_row :: "(string \<Rightarrow> int) \<Rightarrow> 'n row \<Rightarrow> column_def list \<Rightarrow> db_error + 'n row" where
  \<comment> \<open>The row, column by column; the first column left NULL against NOT NULL ends it.\<close>
  "build_row seqs supplied [] = Inr []"
| "build_row seqs supplied (c # cs) =
     (case column_value seqs supplied c of
        Inl e \<Rightarrow> Inl e
      | Inr v \<Rightarrow>
          (case build_row seqs supplied cs of
             Inl e \<Rightarrow> Inl e
           | Inr r \<Rightarrow> Inr ((col_name c, v) # r)))"

definition clashes :: "'n row list \<Rightarrow> 'n row \<Rightarrow> column_def \<Rightarrow> bool" where
  \<comment> \<open>A UNIQUE or primary-key column of the new row holds a value, not NULL, that a stored
      row holds in the same column.\<close>
  "clashes rows r c =
     ((is_unique c \<or> is_primary_key c) \<and>
      (case map_of r (col_name c) of
         None \<Rightarrow> False
       | Some NullV \<Rightarrow> False
       | Some v \<Rightarrow> list_ex (\<lambda>r'. map_of r' (col_name c) = Some v) rows))"

definition advance_sequences :: "table_def \<Rightarrow> 'n row \<Rightarrow> (string \<Rightarrow> int) \<Rightarrow> (string \<Rightarrow> int)" where
  \<comment> \<open>Every serial column left to its default takes the next value of its sequence.\<close>
  "advance_sequences td vals seqs =
     (\<lambda>c. if list_ex (\<lambda>cd. col_name cd = c \<and> takes_default vals cd) (columns td)
           then seqs c + 1 else seqs c)"

definition insertInto ::
  "string \<Rightarrow> 'n row \<Rightarrow> 'n database \<Rightarrow> (db_error + 'n row list) \<times> 'n database" where
  \<comment> \<open>\<^verbatim>\<open>insertInto(t).values(vals).returningAll()\<close>: the rows returned, and the new state.
      A statement refused while its parameters are read or converted leaves the state as it
      is, and so does a sequence at its limit; a statement refused by NOT NULL or UNIQUE has
      taken its values from the sequences, which keep the step.\<close>
  "insertInto t vals db =
     (case table_named db t of
        None \<Rightarrow> (Inl (UndefinedTable t), db)
      | Some td \<Rightarrow>
          (case find (\<lambda>k. k \<notin> set (map col_name (columns td))) (map fst vals) of
             Some k \<Rightarrow> (Inl (UndefinedColumn k), db)
           | None \<Rightarrow>
               (case bind_values (columns td) vals of
                  Some e \<Rightarrow> (Inl e, db)
                | None \<Rightarrow>
                    (case convert_values vals (columns td) of
                       Inl e \<Rightarrow> (Inl e, db)
                     | Inr supplied \<Rightarrow>
                         (case find (\<lambda>c. takes_default vals c \<and>
                                         \<not> in_int4 (sequences db t (col_name c) + 1))
                                 (columns td) of
                            Some c \<Rightarrow> (Inl (SequenceLimit (col_name c)), db)
                          | None \<Rightarrow>
                              let db1 = db\<lparr>sequences := (sequences db)
                                            (t := advance_sequences td vals (sequences db t))\<rparr>
                              in (case build_row (sequences db t) supplied (columns td) of
                                    Inl e \<Rightarrow> (Inl e, db1)
                                  | Inr r \<Rightarrow>
                                      (case find (clashes (contents db t) r) (columns td) of
                                         Some c \<Rightarrow> (Inl (UniqueViolation (col_name c)), db1)
                                       | None \<Rightarrow>
                                           (Inr [r],
                                            db1\<lparr>contents :=
                                                  (contents db)(t := contents db t @ [r])\<rparr>))))))))"

definition deleteFrom :: "string \<Rightarrow> ('n row \<Rightarrow> bool) \<Rightarrow> 'n database \<Rightarrow> 'n database" where
  \<comment> \<open>\<^verbatim>\<open>deleteFrom(t).where(...)\<close>: the rows that satisfy the condition are removed.\<close>
  "deleteFrom t cond db = db\<lparr>contents := (contents db)(t := filter (\<lambda>r. \<not> cond r) (contents db t))\<rparr>"

fun update_rows ::
  "(string \<Rightarrow> int) \<Rightarrow> column_def list \<Rightarrow> 'n row \<Rightarrow> ('n row \<Rightarrow> bool) \<Rightarrow> 'n row list \<Rightarrow>
   db_error + 'n row list" where
  \<comment> \<open>The rows that satisfy the condition take the new values, checked against NOT NULL as
      on an insert; a stored row holds every column, so no default is taken.\<close>
  "update_rows seqs cols sets cond [] = Inr []"
| "update_rows seqs cols sets cond (r # rs) =
     (case (if cond r then build_row seqs (sets @ r) cols else Inr r) of
        Inl e \<Rightarrow> Inl e
      | Inr r' \<Rightarrow>
          (case update_rows seqs cols sets cond rs of
             Inl e \<Rightarrow> Inl e
           | Inr rs' \<Rightarrow> Inr (r' # rs')))"

definition repeats :: "'n row list \<Rightarrow> column_def \<Rightarrow> bool" where
  \<comment> \<open>Two rows hold the same value, not NULL, in a UNIQUE or primary-key column.\<close>
  "repeats rows c =
     ((is_unique c \<or> is_primary_key c) \<and>
      \<not> distinct (filter (\<lambda>v. v \<noteq> None \<and> v \<noteq> Some NullV)
                    (map (\<lambda>r. map_of r (col_name c)) rows)))"

definition updateTable ::
  "string \<Rightarrow> 'n row \<Rightarrow> ('n row \<Rightarrow> bool) \<Rightarrow> 'n database \<Rightarrow> db_error + 'n database" where
  \<comment> \<open>\<^verbatim>\<open>updateTable(t).set(sets).where(...)\<close>: all rows change or none. The new values are
      read and converted as on an insert. Uniqueness is checked on the table as the statement
      leaves it; an engine that checks row by row refuses more.\<close>
  "updateTable t sets cond db =
     (case table_named db t of
        None \<Rightarrow> Inl (UndefinedTable t)
      | Some td \<Rightarrow>
          (case find (\<lambda>k. k \<notin> set (map col_name (columns td))) (map fst sets) of
             Some k \<Rightarrow> Inl (UndefinedColumn k)
           | None \<Rightarrow>
               (case bind_values (columns td) sets of
                  Some e \<Rightarrow> Inl e
                | None \<Rightarrow>
                    (case convert_values sets (columns td) of
                       Inl e \<Rightarrow> Inl e
                     | Inr converted \<Rightarrow>
                         (case update_rows (sequences db t) (columns td) converted cond
                                 (contents db t) of
                            Inl e \<Rightarrow> Inl e
                          | Inr rows \<Rightarrow>
                              (case find (repeats rows) (columns td) of
                                 Some c \<Rightarrow> Inl (UniqueViolation (col_name c))
                               | None \<Rightarrow>
                                   Inr (db\<lparr>contents := (contents db)(t := rows)\<rparr>)))))))"

definition selectFrom ::
  "string \<Rightarrow> string list \<Rightarrow> string \<Rightarrow> 'n sql_value \<Rightarrow> 'n database \<Rightarrow> db_error + 'n row list" where
  \<comment> \<open>\<^verbatim>\<open>selectFrom(t).select(cols).where(c, '=', v)\<close>; a comparison with NULL is never true.\<close>
  "selectFrom t cols c v db =
     (case table_named db t of
        None \<Rightarrow> Inl (UndefinedTable t)
      | Some td \<Rightarrow>
          (case find (\<lambda>k. k \<notin> set (map col_name (columns td))) (c # cols) of
             Some k \<Rightarrow> Inl (UndefinedColumn k)
           | None \<Rightarrow>
               Inr (map (filter (\<lambda>(k, _). k \<in> set cols))
                      (filter (\<lambda>r. v \<noteq> NullV \<and> map_of r c = Some v) (contents db t)))))"

definition executeTakeFirst :: "'a list \<Rightarrow> 'a option" where
  "executeTakeFirst rows = (case rows of [] \<Rightarrow> None | r # _ \<Rightarrow> Some r)"

text \<open>
  The states of a migrated database: the migration runs on the empty database, and rows are
  then inserted, updated and deleted.
\<close>

inductive reachable_db :: "'n database \<Rightarrow> bool" where
  migrated: "up empty_database = Inr db \<Longrightarrow> reachable_db db"
| inserted: "reachable_db db \<Longrightarrow> reachable_db (snd (insertInto t vals db))"
| updated: "reachable_db db \<Longrightarrow> updateTable t sets cond db = Inr db' \<Longrightarrow> reachable_db db'"
| deleted: "reachable_db db \<Longrightarrow> reachable_db (deleteFrom t cond db)"

definition column_values :: "'n database \<Rightarrow> string \<Rightarrow> string \<Rightarrow> 'n sql_value option list" where
  "column_values db t c = map (\<lambda>r. map_of r c) (contents db t)"

definition column_declared :: "table_def \<Rightarrow> string \<Rightarrow> (column_def \<Rightarrow> bool) \<Rightarrow> bool" where
  \<comment> \<open>The table has the column, and every definition of it has the property.\<close>
  "column_declared td c P =
     (list_ex (\<lambda>cd. col_name cd = c) (columns td) \<and>
      list_all (\<lambda>cd. col_name cd = c \<longrightarrow> P cd) (columns td))"

definition migrated_database :: "'n database" where
  \<comment> \<open>The state the migration leaves: the four tables, all empty.\<close>
  "migrated_database =
     \<lparr>catalog = migrated_catalog, contents = (\<lambda>t. []), sequences = (\<lambda>t c. 0)\<rparr>"

definition has_email :: "'n database \<Rightarrow> string \<Rightarrow> string \<Rightarrow> bool" where
  \<comment> \<open>Some row of the table holds the string in its email column.\<close>
  "has_email db t e = list_ex (\<lambda>r. map_of r ''email'' = Some (TextV e)) (contents db t)"

section \<open>The organization signup endpoint\<close>

record 'n NewOrganizationRequest =
  name :: string
  email :: string
  phone_number :: "string option"
  url :: string
  location_name :: string
  latitude :: "'n option"
  longitude :: "'n option"

datatype error = ZodError | Error string | DatabaseError db_error

text \<open>\<^verbatim>\<open>res\<close>: the status code, 200 until set, and the JSON object sent, if any.\<close>

record 'n response =
  statusCode :: nat
  body :: "'n row option"

record 'n outcome =
  database :: "'n database"
  console :: "(string \<times> error) list"
  res :: "'n response"
  thrown :: "error option"

definition throw :: "'n database \<Rightarrow> nat \<Rightarrow> error \<Rightarrow> 'n outcome" where
  \<comment> \<open>The handler ends by throwing, with the status code as it stands and nothing sent.\<close>
  "throw db status e =
     \<lparr>database = db, console = [], res = \<lparr>statusCode = status, body = None\<rparr>, thrown = Some e\<rparr>"

definition optional :: "string \<Rightarrow> 'a option \<Rightarrow> ('a \<Rightarrow> 'n sql_value) \<Rightarrow> 'n row" where
  \<comment> \<open>A property that is undefined is left out of the insert.\<close>
  "optional k v f = (case v of None \<Rightarrow> [] | Some x \<Rightarrow> [(k, f x)])"

definition request_values :: "'n NewOrganizationRequest \<Rightarrow> string \<Rightarrow> 'n row" where
  "request_values b e =
     [(''name'', TextV (name b)), (''email'', TextV e)] @
     optional ''phone_number'' (phone_number b) TextV @
     [(''url'', TextV (url b)), (''location_name'', TextV (location_name b))] @
     optional ''latitude'' (latitude b) NumV @
     optional ''longitude'' (longitude b) NumV"

text \<open>
  The handler of \<^verbatim>\<open>POST /organization/request\<close>. The schema
  \<^verbatim>\<open>newOrganizationRequestSchema\<close> and \<^verbatim>\<open>sendAdminOrganizationRequestEmail\<close> are defined
  elsewhere and are parameters: \<open>parse\<close> gives the validated body or throws (\<open>None\<close>),
  the notification returns (\<open>None\<close>) or throws a value.
\<close>

definition organization_request_post ::
  "('r \<Rightarrow> 'n NewOrganizationRequest option) \<Rightarrow> ('n row \<Rightarrow> error option) \<Rightarrow>
   'n database \<Rightarrow> 'r \<Rightarrow> 'n outcome" where
  "organization_request_post parse sendAdminOrganizationRequestEmail db req_body =
     (case parse req_body of
        None \<Rightarrow> throw db 200 ZodError
      | Some b \<Rightarrow>
          let e = trim (toLowerCase (email b))
          in (case selectFrom ''organization_account'' [''id''] ''email'' (TextV e) db of
               Inl err \<Rightarrow> throw db 200 (DatabaseError err)
             | Inr accounts \<Rightarrow>
                 if executeTakeFirst accounts \<noteq> None
                 then throw db 400 (Error ''An organization with this email account already exists'')
                 else
                   (case selectFrom ''organization_request'' [''id''] ''email'' (TextV e) db of
                      Inl err \<Rightarrow> throw db 200 (DatabaseError err)
                    | Inr pending \<Rightarrow>
                        if executeTakeFirst pending \<noteq> None
                        then throw db 400 (Error ''A request with this email is already pending'')
                        else
                          (case insertInto ''organization_request'' (request_values b e) db of
                             (Inl err, db') \<Rightarrow> throw db' 200 (DatabaseError err)
                           | (Inr rows, db') \<Rightarrow>
                               (case executeTakeFirst rows of
                                  None \<Rightarrow>
                                    throw db' 200 (Error ''Failed to create organization request'')
                                | Some organization \<Rightarrow>
                                    \<lparr>database = db',
                                     console =
                                       (case sendAdminOrganizationRequestEmail organization of
                                          None \<Rightarrow> []
                                        | Some err \<Rightarrow>
                                            [(''Failed to send organization request email to admin'',
                                              err)]),
                                     res = \<lparr>statusCode = 200, body = Some []\<rparr>,
                                     thrown = None\<rparr>)))))"

definition normalized_email :: "'n NewOrganizationRequest \<Rightarrow> string" where
  \<comment> \<open>The email the handler looks up and stores.\<close>
  "normalized_email b = trim (toLowerCase (email b))"

definition unique_columns_hold :: "'n database \<Rightarrow> bool" where
  "unique_columns_hold db =
     (\<forall>td\<in>set (catalog db). \<forall>cd\<in>set (columns td). is_unique cd \<and> is_not_null cd \<longrightarrow>
        distinct (column_values db (table_name td) (col_name cd)) \<and>
        (\<forall>v\<in>set (column_values db (table_name td) (col_name cd)). v \<noteq> None \<and> v \<noteq> Some NullV))"

text \<open>Signup payloads and database states for the examples below.\<close>

definition helping_hands :: "int NewOrganizationRequest" where
  "helping_hands =
     \<lparr>name = ''Helping Hands'', email = ''Info@Helpers.org'', phone_number = None,
      url = ''https://helpers.org'', location_name = ''Springfield'',
      latitude = None, longitude = None\<rparr>"

definition same_url_signup :: "int NewOrganizationRequest" where
  "same_url_signup =
     \<lparr>name = ''Helpers Two'', email = ''second@helpers.org'', phone_number = None,
      url = ''https://helpers.org'', location_name = ''Shelbyville'',
      latitude = None, longitude = None\<rparr>"

definition food_bank :: "int NewOrganizationRequest" where
  "food_bank =
     \<lparr>name = ''Food Bank'', email = '' Contact@FoodBank.org '', phone_number = Some ''+1 555 0100'',
      url = ''https://foodbank.org'', location_name = ''Capital City'',
      latitude = Some 40, longitude = Some (-75)\<rparr>"

definition approved_helping_hands :: "int row" where
  "approved_helping_hands =
     [(''name'', TextV ''Helping Hands''), (''email'', TextV ''info@helpers.org''),
      (''phone_number'', TextV ''+1 555 0199''), (''url'', TextV ''https://helpers.org''),
      (''password'', TextV ''$2b$10$hash''), (''location_name'', TextV ''Springfield'')]"

definition database_with_account :: "int database" where
  "database_with_account =
     snd (insertInto ''organization_account'' approved_helping_hands migrated_database)"

definition database_with_request :: "int database" where
  "database_with_request =
     database (organization_request_post Some (\<lambda>organization. None) migrated_database
       helping_hands)"

definition nul_name_signup :: "int NewOrganizationRequest" where
  "nul_name_signup = helping_hands\<lparr>name := ''Help'' @ [char_of (0::nat)] @ ''ing''\<rparr>"

definition helping_hands_request :: "int row" where
  "helping_hands_request =
     [(''id'', IntV 1), (''email'', TextV ''info@helpers.org''), (''name'', TextV ''Helping Hands''),
      (''phone_number'', NullV), (''url'', TextV ''https://helpers.org''), (''latitude'', NullV),
      (''longitude'', NullV), (''location_name'', TextV ''Springfield'')]"

section \<open>Properties of the profile page\<close>

subsection \<open>Splitting on commas\<close>

lemma split_from_not_Nil: "split_from sep acc s \<noteq> []"
  by (induction s arbitrary: acc) auto

lemma join_Cons: "xs \<noteq> [] \<Longrightarrow> join sep (x # xs) = x @ sep @ join sep xs"
  by (cases xs) auto

lemma join_split_from: "join [sep] (split_from sep acc s) = rev acc @ s"
  by (induction s arbitrary: acc) (auto simp: join_Cons split_from_not_Nil)

lemma split_from_free:
  "sep \<notin> set acc \<Longrightarrow> list_all (\<lambda>g. sep \<notin> set g) (split_from sep acc s)"
  by (induction s arbitrary: acc) auto

lemma split_from_append:
  "sep \<notin> set g \<Longrightarrow> split_from sep acc (g @ s) = split_from sep (rev g @ acc) s"
  by (induction g arbitrary: acc) auto

lemma split_join:
  "segs \<noteq> [] \<Longrightarrow> list_all (\<lambda>g. sep \<notin> set g) segs \<Longrightarrow> split sep (join [sep] segs) = segs"
proof (induction segs)
  case Nil
  then show ?case by simp
next
  case (Cons g gs)
  show ?case
  proof (cases gs)
    case Nil
    with Cons.prems show ?thesis
      using split_from_append[of sep g "[]" "[]"] by (simp add: split_def)
  next
    case (Cons h hs)
    with Cons.prems Cons.IH show ?thesis
      using split_from_append[of sep g "[]" "sep # join [sep] gs"] by (simp add: split_def)
  qed
qed

lemma comma_segments_split: "comma_segments s (split CHR '','' s)"
  using join_split_from[of "CHR '',''" "[]" s] split_from_free[of "CHR '',''" "[]" s]
  by (simp add: comma_segments_def split_def split_from_not_Nil)

lemma comma_segments_unique: "comma_segments s segs \<Longrightarrow> segs = split CHR '','' s"
  using split_join[of segs "CHR '',''"] by (auto simp: comma_segments_def)

text \<open>
  C5. Every string has a decomposition into comma-free segments that, joined by commas,
  give the string; the parsed skills are the trimmed segments that are not empty, in their
  order and with their repetitions, whichever such decomposition is taken. The string
  \<^verbatim>\<open>Teaching, , First Aid,,\<close> gives Teaching and First Aid.
\<close>

theorem parsedSkills_split_trim_filter:
  "(\<exists>segs. comma_segments s segs \<and>
       parsedSkills s = filter (\<lambda>g. g \<noteq> []) (map trim segs)) \<and>
   (\<forall>segs. comma_segments s segs \<longrightarrow>
       parsedSkills s = filter (\<lambda>g. g \<noteq> []) (map trim segs)) \<and>
   parsedSkills ''Teaching, , First Aid,,'' = [''Teaching'', ''First Aid'']"
proof (intro conjI allI impI)
  show "\<exists>segs. comma_segments s segs \<and>
       parsedSkills s = filter (\<lambda>g. g \<noteq> []) (map trim segs)"
    using comma_segments_split[of s] by (auto simp: parsedSkills_def)
  show "parsedSkills s = filter (\<lambda>g. g \<noteq> []) (map trim segs)" if "comma_segments s segs" for segs
    using comma_segments_unique[OF that] by (simp add: parsedSkills_def)
  show "parsedSkills ''Teaching, , First Aid,,'' = [''Teaching'', ''First Aid'']"
    by (simp add: parsedSkills_def split_def trim_def isWhiteSpace_def)
qed

theorem parsedSkills_split_trim_filter_witness:
  "comma_segments ''a, ,b ,a,'' [''a'', '' '', ''b '', ''a'', []] \<and>
   parsedSkills ''a, ,b ,a,'' = [''a'', ''b'', ''a'']"
proof -
  have c: "comma_segments ''a, ,b ,a,'' [''a'', '' '', ''b '', ''a'', []]"
    by (simp add: comma_segments_def)
  from parsedSkills_split_trim_filter[of "''a, ,b ,a,''"] c
  have "parsedSkills ''a, ,b ,a,'' =
          filter (\<lambda>g. g \<noteq> []) (map trim [''a'', '' '', ''b '', ''a'', []])"
    by blast
  then show ?thesis using c by (simp add: trim_def isWhiteSpace_def)
qed

subsection \<open>The description limit\<close>

text \<open>
  C6. After a change of the description field the stored description has at most
  \<^const>\<open>DESCRIPTION_MAX_LENGTH\<close> = 300 code units: a longer input is cut to its first
  300, an input within the limit is stored as it is.
\<close>

theorem updateForm_description_bounded:
  "DESCRIPTION_MAX_LENGTH = 300 \<and>
   length (description (form (updateForm Description v st))) \<le> DESCRIPTION_MAX_LENGTH \<and>
   (DESCRIPTION_MAX_LENGTH < length v \<longrightarrow>
      description (form (updateForm Description v st)) = take 300 v \<and>
      length (description (form (updateForm Description v st))) = DESCRIPTION_MAX_LENGTH) \<and>
   (length v \<le> DESCRIPTION_MAX_LENGTH \<longrightarrow>
      description (form (updateForm Description v st)) = v)"
  by (simp add: updateForm_def DESCRIPTION_MAX_LENGTH_def Let_def)

theorem updateForm_description_bounded_witness:
  "DESCRIPTION_MAX_LENGTH < length (replicate 301 CHR ''x'') \<and>
   description (form (updateForm Description (replicate 301 CHR ''x'') initial_state)) =
     replicate 300 CHR ''x'' \<and>
   length ''hello'' \<le> DESCRIPTION_MAX_LENGTH \<and>
   description (form (updateForm Description ''hello'' initial_state)) = ''hello''"
  using updateForm_description_bounded[of "replicate 301 CHR ''x''" initial_state]
    updateForm_description_bounded[of "''hello''" initial_state]
  by simp

subsection \<open>The privacy seeded into the form\<close>

text \<open>
  C10. The privacy seeded into the form is \<^verbatim>\<open>private\<close> exactly when the response
  reports the string \<^verbatim>\<open>private\<close>; null and every other string give \<^verbatim>\<open>public\<close>.
\<close>

theorem getDefaultFormState_privacy:
  "(privacy (getDefaultFormState p) = ''private'' \<longleftrightarrow> r_privacy p = Some ''private'') \<and>
   (r_privacy p \<noteq> Some ''private'' \<longrightarrow> privacy (getDefaultFormState p) = ''public'')"
  by (simp add: getDefaultFormState_def)

theorem getDefaultFormState_privacy_witness:
  "privacy (getDefaultFormState (example_profile\<lparr>r_privacy := Some ''Private''\<rparr>)) = ''public'' \<and>
   privacy (getDefaultFormState (example_profile\<lparr>r_privacy := None\<rparr>)) = ''public'' \<and>
   privacy (getDefaultFormState example_profile) = ''private''"
  using getDefaultFormState_privacy[of "example_profile\<lparr>r_privacy := Some ''Private''\<rparr>"]
    getDefaultFormState_privacy[of "example_profile\<lparr>r_privacy := None\<rparr>"]
    getDefaultFormState_privacy[of example_profile]
  by (simp add: example_profile_def)

subsection \<open>Editing, cancelling and failed saves\<close>

lemma profile_updateForm: "profile (updateForm fld v st) = profile st"
  by (simp add: updateForm_def)

lemma profile_edits: "profile (edits es st) = profile st"
  unfolding edits_def by (induction es arbitrary: st) (auto simp: profile_updateForm)

lemma edit_mode_has_profile:
  "reachable_page st \<Longrightarrow> isEditMode st \<Longrightarrow> profile st \<noteq> None"
proof (induction rule: reachable_page.induct)
  case (mount requestServer)
  then show ?case
    by (simp add: loadProfile_def initial_state_def Let_def split: sum.splits thrown_value.splits)
next
  case (retry st m requestServer)
  then show ?case
    by (simp add: loadProfile_def Let_def split: sum.splits thrown_value.splits)
next
  case (edit st)
  then show ?case by (simp add: onEditProfile_def shows_profile_def)
next
  case (change st fld v)
  then show ?case by (simp add: updateForm_def Let_def)
next
  case (save st requestServer)
  then show ?case
    by (simp add: onSave_def Let_def split: sum.splits thrown_value.splits if_splits)
next
  case (cancel st)
  then show ?case by (simp add: onCancelEdit_def split: option.splits)
qed

lemma viewing_form_is_seeded:
  "reachable_page st \<Longrightarrow> \<not> isEditMode st \<Longrightarrow> profile st = Some p \<Longrightarrow>
   form st = getDefaultFormState p"
proof (induction arbitrary: p rule: reachable_page.induct)
  case (mount requestServer)
  then show ?case
    by (auto simp: loadProfile_def initial_state_def Let_def split: sum.splits thrown_value.splits)
next
  case (retry st m requestServer)
  then show ?case
    by (auto simp: loadProfile_def Let_def split: sum.splits thrown_value.splits)
next
  case (edit st)
  then show ?case by (simp add: onEditProfile_def)
next
  case (change st fld v)
  then show ?case by (simp add: updateForm_def Let_def)
next
  case (save st requestServer)
  then show ?case
    by (auto simp: onSave_def Let_def split: sum.splits thrown_value.splits if_splits)
next
  case (cancel st)
  then show ?case by (auto simp: onCancelEdit_def split: option.splits)
qed

text \<open>
  C7. From a reachable state that shows the profile \<open>p\<close> outside edit mode, entering edit
  mode, changing fields any number of times and cancelling leaves the form with the values
  seeded from \<open>p\<close>, which are the values it had before the edit.
\<close>

theorem cancel_restores_profile_values:
  assumes "reachable_page st" and "\<not> isEditMode st" and "profile st = Some p"
  shows "form (onCancelEdit (edits es (onEditProfile st))) = getDefaultFormState p \<and>
         form (onCancelEdit (edits es (onEditProfile st))) = form st"
  using assms viewing_form_is_seeded[OF assms]
  by (simp add: onCancelEdit_def profile_edits onEditProfile_def)

theorem cancel_restores_profile_values_witness:
  "form (onCancelEdit (edits [(Skills, ''Cooking''), (Description, ''Hello''), (Privacy, ''public'')]
     (onEditProfile (loadProfile (\<lambda>r. Inr example_profile) initial_state)))) =
     \<lparr>description = ''Weekend volunteer'', skills = ''Teaching, First Aid'', cv = [],
      privacy = ''private''\<rparr> \<and>
   form (edits [(Skills, ''Cooking''), (Description, ''Hello''), (Privacy, ''public'')]
     (onEditProfile (loadProfile (\<lambda>r. Inr example_profile) initial_state))) =
     \<lparr>description = ''Hello'', skills = ''Cooking'', cv = [], privacy = ''public''\<rparr>"
proof -
  let ?st = "loadProfile (\<lambda>r. Inr example_profile) initial_state"
  have r: "reachable_page ?st" by (rule reachable_page.mount)
  have v: "\<not> isEditMode ?st" and l: "profile ?st = Some example_profile"
    by (simp_all add: loadProfile_def initial_state_def Let_def)
  from cancel_restores_profile_values[OF r v l,
      of "[(Skills, ''Cooking''), (Description, ''Hello''), (Privacy, ''public'')]"]
  show ?thesis
    by (simp add: edits_def updateForm_def onEditProfile_def loadProfile_def initial_state_def
        DESCRIPTION_MAX_LENGTH_def Let_def getDefaultFormState_def example_profile_def)
qed

text \<open>
  C8. In a reachable state in edit mode, when the PUT request of a save fails, the page is
  still in edit mode afterwards, the form holds the values it held before, and the save
  error is set: to the message of the error thrown, or to \<^verbatim>\<open>Failed to save profile\<close>.
\<close>

theorem save_failure_keeps_edits:
  assumes "reachable_page st" and "isEditMode st"
    and "requestServer (PutProfile (save_request (form st))) = Inl e"
  shows "isEditMode (onSave requestServer st) \<and>
         form (onSave requestServer st) = form st \<and>
         saveError (onSave requestServer st) =
           Some (case e of ErrorObject m \<Rightarrow> m | OtherValue \<Rightarrow> ''Failed to save profile'')"
  using assms edit_mode_has_profile[OF assms(1,2)]
  by (cases e) (auto simp: onSave_def Let_def)

theorem save_failure_keeps_edits_witness:
  "isEditMode (onSave (\<lambda>r. Inl (ErrorObject ''Network error''))
     (updateForm Skills ''Cooking''
       (onEditProfile (loadProfile (\<lambda>r. Inr example_profile) initial_state)))) \<and>
   form (onSave (\<lambda>r. Inl (ErrorObject ''Network error''))
     (updateForm Skills ''Cooking''
       (onEditProfile (loadProfile (\<lambda>r. Inr example_profile) initial_state)))) =
     \<lparr>description = ''Weekend volunteer'', skills = ''Cooking'', cv = [],
      privacy = ''private''\<rparr> \<and>
   saveError (onSave (\<lambda>r. Inl (ErrorObject ''Network error''))
     (updateForm Skills ''Cooking''
       (onEditProfile (loadProfile (\<lambda>r. Inr example_profile) initial_state)))) =
     Some ''Network error''"
proof -
  let ?loaded = "loadProfile (\<lambda>r. Inr example_profile) initial_state"
  let ?edited = "updateForm Skills ''Cooking'' (onEditProfile ?loaded)"
  have r0: "reachable_page ?loaded" by (rule reachable_page.mount)
  have s0: "shows_profile ?loaded" and n0: "\<not> isEditMode ?loaded"
    by (simp_all add: loadProfile_def initial_state_def shows_profile_def Let_def)
  have r1: "reachable_page (onEditProfile ?loaded)"
    using r0 s0 n0 by (rule reachable_page.edit)
  have s1: "shows_profile (onEditProfile ?loaded)" and e1: "isEditMode (onEditProfile ?loaded)"
    by (simp_all add: onEditProfile_def loadProfile_def initial_state_def shows_profile_def
        Let_def)
  have r: "reachable_page ?edited"
    using r1 s1 e1 by (rule reachable_page.change)
  have m: "isEditMode ?edited" using e1 by (simp add: updateForm_def Let_def)
  have f: "(\<lambda>r. Inl (ErrorObject ''Network error'')) (PutProfile (save_request (form ?edited))) =
             (Inl (ErrorObject ''Network error'') :: thrown_value + VolunteerProfileResponse)"
    by simp
  from save_failure_keeps_edits[OF r m f] show ?thesis
    by (simp add: updateForm_def Let_def onEditProfile_def loadProfile_def initial_state_def
        getDefaultFormState_def example_profile_def)
qed

section \<open>Properties of the database and of the signup endpoint\<close>

lemmas table_defs = organization_account_table_def organization_request_table_def
  volunteer_account_table_def admin_account_table_def chain_def createTable_def addColumn_def
  primaryKey_def notNull_def unique_def plain_def

lemma up_empty_database: "up empty_database = Inr migrated_database"
  by (simp add: up_def execute_def and_then_def empty_database_def migrated_database_def
      migrated_catalog_def table_defs fun_eq_iff)

lemma distinct_table_names: "distinct (map table_name migrated_catalog)"
  by (simp add: migrated_catalog_def table_defs)

lemma distinct_column_names:
  "td \<in> set migrated_catalog \<Longrightarrow> distinct (map col_name (columns td))"
  by (auto simp: migrated_catalog_def table_defs)

lemma table_named_SomeD:
  "table_named db t = Some td \<Longrightarrow> td \<in> set (catalog db) \<and> table_name td = t"
  by (auto simp: table_named_def find_Some_iff)

lemma column_value_not_null:
  "column_value seqs vals cd = Inr v \<Longrightarrow> is_not_null cd \<Longrightarrow> v \<noteq> NullV"
  by (auto simp: column_value_def Let_def split: sum.splits if_splits)

lemma build_row_map_of:
  "build_row seqs vals cs = Inr r \<Longrightarrow> distinct (map col_name cs) \<Longrightarrow> cd \<in> set cs \<Longrightarrow>
   \<exists>v. map_of r (col_name cd) = Some v \<and> column_value seqs vals cd = Inr v"
proof (induction cs arbitrary: r)
  case Nil
  then show ?case by simp
next
  case (Cons c cs)
  from Cons.prems(1) obtain v r' where
    v: "column_value seqs vals c = Inr v" and r': "build_row seqs vals cs = Inr r'"
    and r: "r = (col_name c, v) # r'"
    by (auto split: sum.splits)
  show ?case
  proof (cases "cd = c")
    case True
    with v r show ?thesis by simp
  next
    case False
    with Cons.prems(3) have in_cs: "cd \<in> set cs" by simp
    from Cons.prems(2) have "col_name c \<notin> col_name ` set cs" by simp
    with in_cs have "col_name cd \<noteq> col_name c" by (metis imageI)
    with Cons.IH[OF r' _ in_cs] Cons.prems(2) r show ?thesis by auto
  qed
qed

lemma convert_values_map_of:
  "convert_values vals cs = Inr supplied \<Longrightarrow> distinct (map col_name cs) \<Longrightarrow> cd \<in> set cs \<Longrightarrow>
   map_of vals (col_name cd) = Some v \<Longrightarrow>
   \<exists>v'. coerce (col_name cd) (col_type cd) v = Inr v' \<and> map_of supplied (col_name cd) = Some v'"
proof (induction cs arbitrary: supplied)
  case Nil
  then show ?case by simp
next
  case (Cons c cs)
  show ?case
  proof (cases "cd = c")
    case True
    with Cons.prems(1,4) show ?thesis by (auto split: sum.splits)
  next
    case False
    with Cons.prems(3) have in_cs: "cd \<in> set cs" by simp
    from Cons.prems(2) have "col_name c \<notin> col_name ` set cs" by simp
    with in_cs have ne: "col_name cd \<noteq> col_name c" by (metis imageI)
    from Cons.prems(1) obtain rest where rest: "convert_values vals cs = Inr rest"
      and sup: "map_of supplied (col_name cd) = map_of rest (col_name cd)"
      using ne by (auto split: option.splits sum.splits)
    from Cons.IH[OF rest _ in_cs Cons.prems(4)] Cons.prems(2) sup show ?thesis by simp
  qed
qed

lemma insertInto_cases:
  assumes "insertInto t vals db = (result, db')"
  shows "catalog db' = catalog db \<and>
         (case result of
            Inl e \<Rightarrow> contents db' = contents db
          | Inr rows \<Rightarrow>
              (\<exists>td supplied r. table_named db t = Some td \<and>
                 convert_values vals (columns td) = Inr supplied \<and>
                 build_row (sequences db t) supplied (columns td) = Inr r \<and>
                 find (clashes (contents db t) r) (columns td) = None \<and>
                 rows = [r] \<and>
                 contents db' = (contents db)(t := contents db t @ [r])))"
  using assms
  by (auto simp: insertInto_def Let_def split: option.splits sum.splits)

lemma no_clash:
  assumes "find (clashes rows r) cs = None" and "cd \<in> set cs" and "is_unique cd"
    and "map_of r (col_name cd) = Some v" and "v \<noteq> NullV"
  shows "Some v \<notin> set (map (\<lambda>r'. map_of r' (col_name cd)) rows)"
proof -
  from assms(1,2) have "\<not> clashes rows r cd" by (auto simp: find_None_iff)
  with assms(3,4,5) show ?thesis
    by (cases v) (auto simp: clashes_def list_ex_iff)
qed

lemma same_table:
  assumes "td \<in> set migrated_catalog" "td' \<in> set migrated_catalog"
    and "table_name td = table_name td'"
  shows "td = td'"
  using distinct_table_names assms by (auto simp: distinct_map inj_on_def)

lemma insertInto_preserves:
  assumes inv: "unique_columns_hold db" and cat: "catalog db = migrated_catalog"
  shows "unique_columns_hold (snd (insertInto t vals db)) \<and>
         catalog (snd (insertInto t vals db)) = migrated_catalog"
proof -
  obtain result db' where ins: "insertInto t vals db = (result, db')"
    by (cases "insertInto t vals db")
  note c = insertInto_cases[OF ins]
  show ?thesis
  proof (cases result)
    case (Inl e)
    with c inv cat ins show ?thesis
      by (simp add: unique_columns_hold_def column_values_def)
  next
    case (Inr rows)
    with c obtain td supplied r where td: "table_named db t = Some td"
      and r: "build_row (sequences db t) supplied (columns td) = Inr r"
      and nc: "find (clashes (contents db t) r) (columns td) = None"
      and cont: "contents db' = (contents db)(t := contents db t @ [r])"
      by auto
    from td cat have tdin: "td \<in> set migrated_catalog" and tdn: "table_name td = t"
      using table_named_SomeD[OF td] by auto
    have "distinct (column_values db' (table_name td') (col_name cd)) \<and>
          (\<forall>v\<in>set (column_values db' (table_name td') (col_name cd)). v \<noteq> None \<and> v \<noteq> Some NullV)"
      if td': "td' \<in> set migrated_catalog" and cd: "cd \<in> set (columns td')"
        and u: "is_unique cd" "is_not_null cd" for td' cd
    proof (cases "table_name td' = t")
      case False
      with inv cat td' cd u cont show ?thesis
        by (simp add: unique_columns_hold_def column_values_def)
    next
      case True
      with same_table[OF td' tdin] tdn have eq: "td' = td" by simp
      from build_row_map_of[OF r distinct_column_names[OF tdin]] cd eq
      obtain v where v: "map_of r (col_name cd) = Some v"
        and cv: "column_value (sequences db t) supplied cd = Inr v" by auto
      from column_value_not_null[OF cv u(2)] have vn: "v \<noteq> NullV" .
      from no_clash[OF nc _ u(1) v vn] cd eq
      have fresh: "Some v \<notin> set (column_values db t (col_name cd))"
        by (simp add: column_values_def)
      from inv cat td' cd u True
      have old: "distinct (column_values db t (col_name cd))"
        "\<forall>v\<in>set (column_values db t (col_name cd)). v \<noteq> None \<and> v \<noteq> Some NullV"
        by (auto simp: unique_columns_hold_def)
      have "column_values db' t (col_name cd) = column_values db t (col_name cd) @ [Some v]"
        using cont v by (simp add: column_values_def)
      with old fresh vn True show ?thesis by auto
    qed
    with c ins cat show ?thesis by (simp add: unique_columns_hold_def)
  qed
qed

lemma deleteFrom_preserves:
  assumes inv: "unique_columns_hold db"
  shows "unique_columns_hold (deleteFrom t cond db)"
  using inv
  by (auto simp: unique_columns_hold_def deleteFrom_def column_values_def distinct_map_filter)

lemma update_rows_related:
  "update_rows seqs cols sets cond rs = Inr rs' \<Longrightarrow>
   list_all2 (\<lambda>r r'. if cond r then build_row seqs (sets @ r) cols = Inr r' else r' = r) rs rs'"
proof (induction rs arbitrary: rs')
  case Nil
  then show ?case by simp
next
  case (Cons r rs)
  from Cons.prems obtain r' rs'' where
    r': "(if cond r then build_row seqs (sets @ r) cols else Inr r) = Inr r'"
    and rs'': "update_rows seqs cols sets cond rs = Inr rs''" and eq: "rs' = r' # rs''"
    by (auto split: sum.splits)
  from r' have "if cond r then build_row seqs (sets @ r) cols = Inr r' else r' = r"
    by (simp split: if_splits)
  with Cons.IH[OF rs''] eq show ?case by simp
qed

lemma list_all2_right: "list_all2 P xs ys \<Longrightarrow> y \<in> set ys \<Longrightarrow> \<exists>x\<in>set xs. P x y"
  by (induction rule: list_all2_induct) auto

lemma updateTable_cases:
  assumes "updateTable t sets cond db = Inr db'"
  shows "\<exists>td converted rows. table_named db t = Some td \<and>
           update_rows (sequences db t) (columns td) converted cond (contents db t) = Inr rows \<and>
           find (repeats rows) (columns td) = None \<and>
           db' = db\<lparr>contents := (contents db)(t := rows)\<rparr>"
  using assms by (auto simp: updateTable_def split: option.splits sum.splits)

lemma updateTable_preserves:
  assumes inv: "unique_columns_hold db" and cat: "catalog db = migrated_catalog"
    and upd: "updateTable t sets cond db = Inr db'"
  shows "unique_columns_hold db' \<and> catalog db' = migrated_catalog"
proof -
  from updateTable_cases[OF upd] obtain td converted rows where td: "table_named db t = Some td"
    and rows: "update_rows (sequences db t) (columns td) converted cond (contents db t) = Inr rows"
    and nr: "find (repeats rows) (columns td) = None"
    and db': "db' = db\<lparr>contents := (contents db)(t := rows)\<rparr>"
    by auto
  from td cat have tdin: "td \<in> set migrated_catalog" and tdn: "table_name td = t"
    using table_named_SomeD[OF td] by auto
  note rel = update_rows_related[OF rows]
  have "distinct (column_values db' (table_name td') (col_name cd)) \<and>
        (\<forall>v\<in>set (column_values db' (table_name td') (col_name cd)). v \<noteq> None \<and> v \<noteq> Some NullV)"
    if td': "td' \<in> set migrated_catalog" and cd: "cd \<in> set (columns td')"
      and u: "is_unique cd" "is_not_null cd" for td' cd
  proof (cases "table_name td' = t")
    case False
    with inv cat td' cd u db' show ?thesis
      by (simp add: unique_columns_hold_def column_values_def)
  next
    case True
    with same_table[OF td' tdin] tdn have eq: "td' = td" by simp
    from inv cat td' cd u True
    have old: "\<forall>r\<in>set (contents db t). map_of r (col_name cd) \<noteq> None \<and>
                 map_of r (col_name cd) \<noteq> Some NullV"
      by (auto simp: unique_columns_hold_def column_values_def)
    have new: "map_of r' (col_name cd) \<noteq> None \<and> map_of r' (col_name cd) \<noteq> Some NullV"
      if "r' \<in> set rows" for r'
    proof -
      from that rel obtain r where r: "r \<in> set (contents db t)"
        and rr: "if cond r then build_row (sequences db t) (converted @ r) (columns td) = Inr r'
                 else r' = r"
        using list_all2_right[of _ "contents db t" rows r'] by blast
      show ?thesis
      proof (cases "cond r")
        case True
        with rr have b: "build_row (sequences db t) (converted @ r) (columns td) = Inr r'" by simp
        from build_row_map_of[OF b distinct_column_names[OF tdin]] cd eq
        obtain v where "map_of r' (col_name cd) = Some v"
          and "column_value (sequences db t) (converted @ r) cd = Inr v" by auto
        with column_value_not_null[OF _ u(2)] show ?thesis by auto
      next
        case False
        with rr r old show ?thesis by simp
      qed
    qed
    let ?vals = "map (\<lambda>r. map_of r (col_name cd)) rows"
    from nr cd eq u(1) have "\<not> repeats rows cd" by (auto simp: find_None_iff)
    with u(1) have "distinct (filter (\<lambda>v. v \<noteq> None \<and> v \<noteq> Some NullV) ?vals)"
      by (simp add: repeats_def)
    moreover from new have "filter (\<lambda>v. v \<noteq> None \<and> v \<noteq> Some NullV) ?vals = ?vals"
      by (simp add: filter_id_conv)
    ultimately have "distinct ?vals" by simp
    with new db' True show ?thesis by (simp add: column_values_def)
  qed
  with db' cat show ?thesis by (simp add: unique_columns_hold_def)
qed

lemma reachable_db_invariant:
  "reachable_db db \<Longrightarrow> unique_columns_hold db \<and> catalog db = migrated_catalog"
proof (induction rule: reachable_db.induct)
  case (migrated db)
  then show ?case
    by (auto simp: up_empty_database migrated_database_def unique_columns_hold_def
        column_values_def)
next
  case (inserted db t vals)
  then show ?case using insertInto_preserves by blast
next
  case (updated db t sets cond db')
  then show ?case using updateTable_preserves by blast
next
  case (deleted db t cond)
  then show ?case using deleteFrom_preserves by (auto simp: deleteFrom_def)
qed

lemma norm_hh: "normalized_email helping_hands = ''info@helpers.org''"
  unfolding normalized_email_def helping_hands_def by code_simp

lemma norm_su: "normalized_email same_url_signup = ''second@helpers.org''"
  unfolding normalized_email_def same_url_signup_def by code_simp

lemmas eval_defs = insertInto_def selectFrom_def table_named_def migrated_database_def
  migrated_catalog_def table_defs column_value_def store_varchar_def clashes_def
  advance_sequences_def Let_def request_values_def optional_def executeTakeFirst_def
  throw_def has_email_def
  takes_default_def in_int4_def holds_nul_def

lemma table_named_account:
  "catalog db = migrated_catalog \<Longrightarrow>
   table_named db ''organization_account'' = Some organization_account_table"
  by (simp add: table_named_def migrated_catalog_def table_defs)

lemma table_named_request:
  "catalog db = migrated_catalog \<Longrightarrow>
   table_named db ''organization_request'' = Some organization_request_table"
  by (simp add: table_named_def migrated_catalog_def table_defs)

lemma columns_request:
  "map col_name (columns organization_request_table) =
     [''id'', ''email'', ''name'', ''phone_number'', ''url'', ''latitude'', ''longitude'',
      ''location_name'']"
  by (simp add: table_defs)

lemma columns_account:
  "map col_name (columns organization_account_table) =
     [''id'', ''name'', ''email'', ''phone_number'', ''url'', ''latitude'', ''longitude'',
      ''password'', ''location_name'']"
  by (simp add: table_defs)

lemma executeTakeFirst_None: "executeTakeFirst rows = None \<longleftrightarrow> rows = []"
  by (cases rows) (simp_all add: executeTakeFirst_def)

lemma select_account_email:
  assumes "catalog db = migrated_catalog"
  shows "\<exists>rows. selectFrom ''organization_account'' [''id''] ''email'' (TextV e) db = Inr rows \<and>
           (executeTakeFirst rows \<noteq> None \<longleftrightarrow> has_email db ''organization_account'' e)"
  using table_named_account[OF assms]
  by (simp add: selectFrom_def columns_account executeTakeFirst_None has_email_def
      list_ex_iff filter_empty_conv)

lemma select_request_email:
  assumes "catalog db = migrated_catalog"
  shows "\<exists>rows. selectFrom ''organization_request'' [''id''] ''email'' (TextV e) db = Inr rows \<and>
           (executeTakeFirst rows \<noteq> None \<longleftrightarrow> has_email db ''organization_request'' e)"
  using table_named_request[OF assms]
  by (simp add: selectFrom_def columns_request executeTakeFirst_None has_email_def
      list_ex_iff filter_empty_conv)

lemma post_account_exists:
  assumes "catalog db = migrated_catalog" and "parse req_body = Some b"
    and "has_email db ''organization_account'' (normalized_email b)"
  shows "organization_request_post parse send db req_body =
           \<lparr>database = db, console = [],
            res = \<lparr>statusCode = 400, body = None\<rparr>,
            thrown = Some (Error ''An organization with this email account already exists'')\<rparr>"
proof -
  obtain rows where
    "selectFrom ''organization_account'' [''id''] ''email'' (TextV (normalized_email b)) db = Inr rows"
    "executeTakeFirst rows \<noteq> None"
    using select_account_email[OF assms(1), of "normalized_email b"] assms(3) by auto
  then show ?thesis
    using assms(2) by (simp add: organization_request_post_def normalized_email_def throw_def)
qed

lemma post_request_pending:
  assumes "catalog db = migrated_catalog" and "parse req_body = Some b"
    and "\<not> has_email db ''organization_account'' (normalized_email b)"
    and "has_email db ''organization_request'' (normalized_email b)"
  shows "organization_request_post parse send db req_body =
           \<lparr>database = db, console = [],
            res = \<lparr>statusCode = 400, body = None\<rparr>,
            thrown = Some (Error ''A request with this email is already pending'')\<rparr>"
proof -
  obtain accounts where
    "selectFrom ''organization_account'' [''id''] ''email'' (TextV (normalized_email b)) db = Inr accounts"
    "executeTakeFirst accounts = None"
    using select_account_email[OF assms(1), of "normalized_email b"] assms(3) by auto
  moreover obtain pending where
    "selectFrom ''organization_request'' [''id''] ''email'' (TextV (normalized_email b)) db = Inr pending"
    "executeTakeFirst pending \<noteq> None"
    using select_request_email[OF assms(1), of "normalized_email b"] assms(4) by auto
  ultimately show ?thesis
    using assms(2) by (simp add: organization_request_post_def normalized_email_def throw_def)
qed

lemma post_admitted:
  assumes "catalog db = migrated_catalog" and "parse req_body = Some b"
    and "\<not> has_email db ''organization_account'' (normalized_email b)"
    and "\<not> has_email db ''organization_request'' (normalized_email b)"
    and "insertInto ''organization_request'' (request_values b (normalized_email b)) db =
           (Inr [organization], db')"
  shows "organization_request_post parse send db req_body =
           \<lparr>database = db',
            console = (case send organization of
                         None \<Rightarrow> []
                       | Some err \<Rightarrow> [(''Failed to send organization request email to admin'', err)]),
            res = \<lparr>statusCode = 200, body = Some []\<rparr>,
            thrown = None\<rparr>"
proof -
  obtain accounts where
    "selectFrom ''organization_account'' [''id''] ''email'' (TextV (normalized_email b)) db = Inr accounts"
    "executeTakeFirst accounts = None"
    using select_account_email[OF assms(1), of "normalized_email b"] assms(3) by auto
  moreover obtain pending where
    "selectFrom ''organization_request'' [''id''] ''email'' (TextV (normalized_email b)) db = Inr pending"
    "executeTakeFirst pending = None"
    using select_request_email[OF assms(1), of "normalized_email b"] assms(4) by auto
  ultimately show ?thesis
    using assms(2,5)
    by (simp add: organization_request_post_def normalized_email_def[symmetric] executeTakeFirst_def)
qed

lemma isWhiteSpace_space: "isWhiteSpace CHR '' ''"
  by (simp add: isWhiteSpace_def)

lemma trim_last: "trim s \<noteq> [] \<Longrightarrow> \<not> isWhiteSpace (last (trim s))"
  unfolding trim_def using hd_dropWhile[of isWhiteSpace "rev (dropWhile isWhiteSpace s)"]
  by (simp add: last_rev)

lemma not_all_equal: "x \<in> set ys \<Longrightarrow> \<not> P x \<Longrightarrow> P c \<Longrightarrow> \<not> list_all (\<lambda>y. y = c) ys"
  by (auto simp: list_all_iff)

lemma store_varchar_trim: "store_varchar w (trim s) = Some s' \<Longrightarrow> s' = trim s"
proof (cases w)
  case None
  then show "store_varchar w (trim s) = Some s' \<Longrightarrow> s' = trim s"
    by (simp add: store_varchar_def)
next
  case (Some n)
  assume st: "store_varchar w (trim s) = Some s'"
  show "s' = trim s"
  proof (cases "length (trim s) \<le> n")
    case True
    with st Some show ?thesis by (simp add: store_varchar_def)
  next
    case False
    then have ne: "trim s \<noteq> []" and d: "drop n (trim s) \<noteq> []" by auto
    from False have "last (drop n (trim s)) = last (trim s)" by simp
    then have "last (trim s) \<in> set (drop n (trim s))"
      using last_in_set[OF d] by (simp only:)
    then have "\<not> list_all (\<lambda>c. c = CHR '' '') (drop n (trim s))"
      using trim_last[OF ne] isWhiteSpace_space by (rule not_all_equal)
    with st Some False show ?thesis by (simp add: store_varchar_def)
  qed
qed

lemma inserted_request_email:
  assumes "catalog db = migrated_catalog"
    and "insertInto ''organization_request'' (request_values b (normalized_email b)) db =
           (Inr rows, db')"
  shows "\<exists>organization. rows = [organization] \<and>
           map_of organization ''email'' = Some (TextV (normalized_email b)) \<and>
           catalog db' = catalog db \<and>
           contents db' = (contents db)(''organization_request'' :=
             contents db ''organization_request'' @ [organization])"
proof -
  let ?seqs = "sequences db ''organization_request''"
  let ?vals = "request_values b (normalized_email b)"
  from insertInto_cases[OF assms(2)] table_named_request[OF assms(1)]
  obtain supplied r where
    s: "convert_values ?vals (columns organization_request_table) = Inr supplied"
    and r: "build_row ?seqs supplied (columns organization_request_table) = Inr r"
    and rows: "rows = [r]" and cat: "catalog db' = catalog db"
    and cont: "contents db' = (contents db)(''organization_request'' :=
                 contents db ''organization_request'' @ [r])"
    by auto
  define cd where "cd =
    \<lparr>col_name = ''email'', col_type = Varchar (Some 128), is_primary_key = False,
     is_not_null = True, is_unique = True\<rparr>"
  have cd: "cd \<in> set (columns organization_request_table)" "col_name cd = ''email''"
    "col_type cd = Varchar (Some 128)"
    by (simp_all add: table_defs cd_def)
  have d: "distinct (map col_name (columns organization_request_table))"
    by (simp add: columns_request)
  have "map_of ?vals (col_name cd) = Some (TextV (normalized_email b))"
    by (simp add: request_values_def cd(2))
  from convert_values_map_of[OF s d cd(1) this]
  obtain v' where c: "coerce ''email'' (Varchar (Some 128)) (TextV (normalized_email b)) = Inr v'"
    and sup: "map_of supplied ''email'' = Some v'"
    by (auto simp: cd)
  from c have v': "v' = TextV (normalized_email b)"
    using store_varchar_trim[of "Some 128" "toLowerCase (email b)"]
    by (auto simp: normalized_email_def split: option.splits)
  from build_row_map_of[OF r d cd(1)] obtain v where v: "map_of r ''email'' = Some v"
    and cv: "column_value ?seqs supplied cd = Inr v"
    by (auto simp: cd)
  from cv sup have "v = v'"
    by (auto simp: column_value_def cd split: if_splits)
  with v v' rows cat cont show ?thesis by simp
qed

lemma norm_fb: "normalized_email food_bank = ''contact@foodbank.org''"
  unfolding normalized_email_def food_bank_def by code_simp

lemma insert_helping_hands:
  "fst (insertInto ''organization_request'' (request_values helping_hands ''info@helpers.org'')
     migrated_database) = Inr [helping_hands_request]"
  "catalog (snd (insertInto ''organization_request''
     (request_values helping_hands ''info@helpers.org'') migrated_database)) = migrated_catalog"
  "contents (snd (insertInto ''organization_request''
     (request_values helping_hands ''info@helpers.org'') migrated_database)) =
     (\<lambda>t. [])(''organization_request'' := [helping_hands_request])"
  "sequences (snd (insertInto ''organization_request''
     (request_values helping_hands ''info@helpers.org'') migrated_database))
     ''organization_request'' ''id'' = 1"
  by (simp_all add: eval_defs helping_hands_def helping_hands_request_def)

lemma migrated_database_simps:
  "catalog (migrated_database :: 'n database) = migrated_catalog"
  "contents (migrated_database :: 'n database) t = []"
  "\<not> has_email (migrated_database :: 'n database) t e"
  by (simp_all add: migrated_database_def has_email_def)

lemma first_signup:
  "organization_request_post Some send migrated_database helping_hands =
     \<lparr>database = snd (insertInto ''organization_request''
         (request_values helping_hands ''info@helpers.org'') migrated_database),
      console = (case send helping_hands_request of
                   None \<Rightarrow> []
                 | Some err \<Rightarrow> [(''Failed to send organization request email to admin'', err)]),
      res = \<lparr>statusCode = 200, body = Some []\<rparr>,
      thrown = None\<rparr>"
proof -
  have "insertInto ''organization_request''
          (request_values helping_hands (normalized_email helping_hands)) migrated_database =
        (Inr [helping_hands_request],
         snd (insertInto ''organization_request''
           (request_values helping_hands ''info@helpers.org'') migrated_database))"
    using insert_helping_hands(1) by (simp add: norm_hh prod_eq_iff)
  from post_admitted[of migrated_database Some helping_hands helping_hands, OF _ _ _ _ this]
  show ?thesis by (simp add: migrated_database_simps)
qed

lemma database_with_request_simps:
  "catalog database_with_request = migrated_catalog"
  "contents database_with_request = (\<lambda>t. [])(''organization_request'' := [helping_hands_request])"
  "sequences database_with_request ''organization_request'' ''id'' = 1"
  by (simp_all add: database_with_request_def first_signup insert_helping_hands)

lemma database_with_request_eq:
  "database_with_request = snd (insertInto ''organization_request''
     (request_values helping_hands ''info@helpers.org'') migrated_database)"
  by (simp add: database_with_request_def first_signup)

lemma database_with_account_simps:
  "catalog database_with_account = migrated_catalog"
  "contents database_with_account ''organization_account'' =
     [[(''id'', IntV 1), (''name'', TextV ''Helping Hands''), (''email'', TextV ''info@helpers.org''),
       (''phone_number'', TextV ''+1 555 0199''), (''url'', TextV ''https://helpers.org''),
       (''latitude'', NullV), (''longitude'', NullV), (''password'', TextV ''$2b$10$hash''),
       (''location_name'', TextV ''Springfield'')]]"
  "contents database_with_account ''organization_request'' = []"
  by (simp_all add: database_with_account_def approved_helping_hands_def eval_defs)

lemma same_url_rejected:
  "thrown (organization_request_post Some send database_with_request same_url_signup) =
     Some (DatabaseError (UniqueViolation ''url''))"
  "contents (database (organization_request_post Some send database_with_request same_url_signup))
     ''organization_request'' = [helping_hands_request]"
  using norm_su
  by (simp_all add: organization_request_post_def normalized_email_def eval_defs
      database_with_request_simps same_url_signup_def helping_hands_request_def)

text \<open>
  What the database refuses beyond the declared constraints: a text holding the code unit 0
  and a sequence at its limit, both without a change of state; an over-long string is
  refused before the sequence is touched.
\<close>

lemma nul_name_refused:
  "insertInto ''organization_request''
     (request_values nul_name_signup ''info@helpers.org'') migrated_database =
     (Inl InvalidByteSequence, migrated_database)"
  by (simp add: eval_defs nul_name_signup_def helping_hands_def)

lemma sequence_limit_refused:
  "insertInto ''organization_request'' (request_values helping_hands ''info@helpers.org'')
     (migrated_database\<lparr>sequences := (\<lambda>t c. 2147483647)\<rparr>) =
     (Inl (SequenceLimit ''id''), migrated_database\<lparr>sequences := (\<lambda>t c. 2147483647)\<rparr>)"
  by (simp add: eval_defs helping_hands_def)

lemma over_long_keeps_sequence:
  "insertInto ''organization_request''
     (request_values (helping_hands\<lparr>name := replicate 129 CHR ''x''\<rparr>) ''info@helpers.org'')
     migrated_database =
     (Inl (StringTooLong ''name''), migrated_database)"
  by (simp add: eval_defs helping_hands_def list_ex_iff)

lemma nul_name_signup_thrown:
  "organization_request_post Some send migrated_database nul_name_signup =
     \<lparr>database = migrated_database, console = [],
      res = \<lparr>statusCode = 200, body = None\<rparr>,
      thrown = Some (DatabaseError InvalidByteSequence)\<rparr>"
proof -
  have n: "trim (toLowerCase (email nul_name_signup)) = ''info@helpers.org''"
    using norm_hh by (simp add: normalized_email_def nul_name_signup_def)
  show ?thesis
    using nul_name_refused
    by (simp add: organization_request_post_def n selectFrom_def table_named_def
        migrated_database_simps migrated_catalog_def table_defs executeTakeFirst_def throw_def
        migrated_database_def)
qed

lemma same_url_rejected_again:
  "thrown (organization_request_post Some send
       (database (organization_request_post Some send database_with_request same_url_signup))
       same_url_signup) = Some (DatabaseError (UniqueViolation ''url''))"
  using norm_su
  by (simp add: organization_request_post_def normalized_email_def eval_defs
      database_with_request_simps same_url_signup_def helping_hands_request_def)

text \<open>
  The database accepts the row of a request when its strings hold no code unit 0 and fit the
  columns, the sequence of ids is below its limit, and neither the next id, the email nor
  the url is held by a row of the table.
\<close>

lemma request_insert_accepted:
  assumes "catalog db = migrated_catalog"
    and "\<not> holds_nul (name b)" and "\<not> holds_nul e" and "\<not> holds_nul (url b)"
    and "\<not> holds_nul (location_name b)"
    and "\<And>p. phone_number b = Some p \<Longrightarrow> \<not> holds_nul p \<and> length p \<le> 32"
    and "length (name b) \<le> 128" and "length e \<le> 128" and "length (url b) \<le> 256"
    and "length (location_name b) \<le> 256"
    and "in_int4 (sequences db ''organization_request'' ''id'' + 1)"
    and "\<not> list_ex (\<lambda>r. map_of r ''id'' =
                 Some (IntV (sequences db ''organization_request'' ''id'' + 1)) \<or>
               map_of r ''email'' = Some (TextV e) \<or>
               map_of r ''url'' = Some (TextV (url b)))
             (contents db ''organization_request'')"
  shows "\<exists>organization.
           fst (insertInto ''organization_request'' (request_values b e) db) = Inr [organization]"
  using assms table_named_request[OF assms(1)]
  by (cases "phone_number b"; cases "latitude b"; cases "longitude b")
     (simp_all add: insertInto_def table_defs column_value_def store_varchar_def clashes_def
        takes_default_def Let_def request_values_def optional_def list_ex_iff)

subsection \<open>The signup endpoint\<close>

text \<open>
  C1. When an approved account holds the normalized email of the request (lower case,
  trimmed), the handler sets the status 400 and throws the error
  \<^verbatim>\<open>An organization with this email account already exists\<close>; the database is unchanged,
  so no request row is inserted. The condition is on the normalized email: the casing and
  the surrounding white space of the submitted email do not matter.
\<close>

theorem account_exists_rejected:
  assumes "catalog db = migrated_catalog" and "parse req_body = Some b"
    and "has_email db ''organization_account'' (trim (toLowerCase (email b)))"
  shows "organization_request_post parse send db req_body =
           \<lparr>database = db, console = [],
            res = \<lparr>statusCode = 400, body = None\<rparr>,
            thrown = Some (Error ''An organization with this email account already exists'')\<rparr>"
  using post_account_exists[of db parse req_body b send] assms by (simp add: normalized_email_def)


theorem account_exists_rejected_witness:
  "has_email database_with_account ''organization_account''
     (trim (toLowerCase ''  INFO@HELPERS.ORG '')) \<and>
   organization_request_post Some (\<lambda>organization. None) database_with_account
       (helping_hands\<lparr>email := ''  INFO@HELPERS.ORG ''\<rparr>) =
     \<lparr>database = database_with_account, console = [],
      res = \<lparr>statusCode = 400, body = None\<rparr>,
      thrown = Some (Error ''An organization with this email account already exists'')\<rparr>"
proof -
  have n: "trim (toLowerCase ''  INFO@HELPERS.ORG '') = ''info@helpers.org''" by code_simp
  have h: "has_email database_with_account ''organization_account''
             (trim (toLowerCase (email (helping_hands\<lparr>email := ''  INFO@HELPERS.ORG ''\<rparr>))))"
    by (simp add: n has_email_def database_with_account_simps)
  from account_exists_rejected[of database_with_account Some
      "helping_hands\<lparr>email := ''  INFO@HELPERS.ORG ''\<rparr>"
      "helping_hands\<lparr>email := ''  INFO@HELPERS.ORG ''\<rparr>" "\<lambda>organization. None",
      OF database_with_account_simps(1) refl h] h
  show ?thesis by simp
qed

text \<open>
  C2. When no approved account but a pending request holds the normalized email, the
  handler sets the status 400 and throws \<^verbatim>\<open>A request with this email is already pending\<close>.
  In particular, from a state where neither table holds the email and the database accepts
  the row, the first submission answers 200 with the body \<^verbatim>\<open>{}\<close>, and the same
  submission made again meets this 400.
\<close>

theorem pending_request_rejected:
  assumes "catalog db = migrated_catalog" and "parse req_body = Some b"
    and "\<not> has_email db ''organization_account'' (trim (toLowerCase (email b)))"
  shows "(has_email db ''organization_request'' (trim (toLowerCase (email b))) \<longrightarrow>
            organization_request_post parse send db req_body =
              \<lparr>database = db, console = [],
               res = \<lparr>statusCode = 400, body = None\<rparr>,
               thrown = Some (Error ''A request with this email is already pending'')\<rparr>) \<and>
         (\<not> has_email db ''organization_request'' (trim (toLowerCase (email b))) \<and>
          fst (insertInto ''organization_request''
                 (request_values b (trim (toLowerCase (email b)))) db) = Inr rows \<longrightarrow>
            res (organization_request_post parse send db req_body) =
              \<lparr>statusCode = 200, body = Some []\<rparr> \<and>
            thrown (organization_request_post parse send db req_body) = None \<and>
            organization_request_post parse send
                (database (organization_request_post parse send db req_body)) req_body =
              \<lparr>database = database (organization_request_post parse send db req_body),
               console = [],
               res = \<lparr>statusCode = 400, body = None\<rparr>,
               thrown = Some (Error ''A request with this email is already pending'')\<rparr>)"
proof (intro conjI impI)
  let ?e = "trim (toLowerCase (email b))"
  have e: "normalized_email b = ?e" by (simp add: normalized_email_def)
  show "organization_request_post parse send db req_body =
          \<lparr>database = db, console = [],
           res = \<lparr>statusCode = 400, body = None\<rparr>,
           thrown = Some (Error ''A request with this email is already pending'')\<rparr>"
    if "has_email db ''organization_request'' ?e"
    using post_request_pending[of db parse req_body b send] assms that by (simp add: e)
  assume a: "\<not> has_email db ''organization_request'' ?e \<and>
    fst (insertInto ''organization_request'' (request_values b ?e) db) = Inr rows"
  then obtain db' where ins:
    "insertInto ''organization_request'' (request_values b (normalized_email b)) db = (Inr rows, db')"
    by (cases "insertInto ''organization_request'' (request_values b ?e) db") (simp add: e)
  from inserted_request_email[OF assms(1) ins] obtain organization where
    rows: "rows = [organization]"
    and em: "map_of organization ''email'' = Some (TextV (normalized_email b))"
    and cat: "catalog db' = catalog db"
    and cont: "contents db' = (contents db)(''organization_request'' :=
                 contents db ''organization_request'' @ [organization])"
    by auto
  have first: "organization_request_post parse send db req_body =
      \<lparr>database = db',
       console = (case send organization of
                    None \<Rightarrow> []
                  | Some err \<Rightarrow> [(''Failed to send organization request email to admin'', err)]),
       res = \<lparr>statusCode = 200, body = Some []\<rparr>,
       thrown = None\<rparr>"
    using post_admitted[of db parse req_body b organization db' send] assms a ins rows
    by (simp add: e)
  show "res (organization_request_post parse send db req_body) =
          \<lparr>statusCode = 200, body = Some []\<rparr>"
    and "thrown (organization_request_post parse send db req_body) = None"
    by (simp_all add: first)
  have "catalog db' = migrated_catalog" using cat assms(1) by simp
  moreover have "\<not> has_email db' ''organization_account'' (normalized_email b)"
    using assms(3) cont by (simp add: has_email_def e)
  moreover have "has_email db' ''organization_request'' (normalized_email b)"
    using em cont by (simp add: has_email_def)
  ultimately show "organization_request_post parse send
      (database (organization_request_post parse send db req_body)) req_body =
      \<lparr>database = database (organization_request_post parse send db req_body),
       console = [],
       res = \<lparr>statusCode = 400, body = None\<rparr>,
       thrown = Some (Error ''A request with this email is already pending'')\<rparr>"
    using post_request_pending[of db' parse req_body b send] assms(2) by (simp add: first)
qed


theorem pending_request_rejected_witness:
  "res (organization_request_post Some (\<lambda>organization. None) migrated_database helping_hands) =
     \<lparr>statusCode = 200, body = Some []\<rparr> \<and>
   organization_request_post Some (\<lambda>organization. None) database_with_request helping_hands =
     \<lparr>database = database_with_request, console = [],
      res = \<lparr>statusCode = 400, body = None\<rparr>,
      thrown = Some (Error ''A request with this email is already pending'')\<rparr>"
proof -
  have n: "trim (toLowerCase (email helping_hands)) = ''info@helpers.org''"
    using norm_hh by (simp add: normalized_email_def)
  from pending_request_rejected[of migrated_database Some helping_hands helping_hands
      "\<lambda>organization. None" "[helping_hands_request]"]
  show ?thesis
    by (simp add: n migrated_database_simps insert_helping_hands(1) database_with_request_def)
qed

text \<open>
  Outside these conditions a submission made twice need not meet 200 and then 400: a payload
  with a fresh email and the url of a pending request is refused by the database both
  times.
\<close>

theorem repeated_submission_counterexample:
  "catalog database_with_request = migrated_catalog \<and>
   \<not> has_email database_with_request ''organization_account''
       (trim (toLowerCase (email same_url_signup))) \<and>
   \<not> has_email database_with_request ''organization_request''
       (trim (toLowerCase (email same_url_signup))) \<and>
   res (organization_request_post Some (\<lambda>organization. None) database_with_request
       same_url_signup) \<noteq> \<lparr>statusCode = 200, body = Some []\<rparr> \<and>
   thrown (organization_request_post Some (\<lambda>organization. None) database_with_request
       same_url_signup) = Some (DatabaseError (UniqueViolation ''url'')) \<and>
   thrown (organization_request_post Some (\<lambda>organization. None)
       (database (organization_request_post Some (\<lambda>organization. None) database_with_request
          same_url_signup))
       same_url_signup) \<noteq> Some (Error ''A request with this email is already pending'')"
proof -
  have n: "trim (toLowerCase (email same_url_signup)) = ''second@helpers.org''"
    using norm_su by (simp add: normalized_email_def)
  have r: "res (organization_request_post Some (\<lambda>organization. None) database_with_request
       same_url_signup) = \<lparr>statusCode = 200, body = None\<rparr>"
    using norm_su
    by (simp add: organization_request_post_def normalized_email_def eval_defs
        database_with_request_simps same_url_signup_def helping_hands_request_def)
  show ?thesis
    by (simp add: n r same_url_rejected same_url_rejected_again database_with_request_simps
        has_email_def helping_hands_request_def)
qed

text \<open>
  C3. When neither table holds the normalized email and the database accepts the insert,
  exactly one row is added to \<^verbatim>\<open>organization_request\<close>, its email column holds the
  normalized email, and the handler answers 200 with \<^verbatim>\<open>{}\<close> and does not throw, whether
  the notification returns or throws; a value thrown by the notification is only logged.
  (A promise returned by the notification is not awaited; its rejection lies outside the
  handler.)
\<close>

theorem admitted_request_is_stored:
  assumes "catalog db = migrated_catalog" and "parse req_body = Some b"
    and "\<not> has_email db ''organization_account'' (trim (toLowerCase (email b)))"
    and "\<not> has_email db ''organization_request'' (trim (toLowerCase (email b)))"
    and "fst (insertInto ''organization_request''
                (request_values b (trim (toLowerCase (email b)))) db) = Inr rows"
  shows "\<exists>organization.
           contents (database (organization_request_post parse send db req_body))
               ''organization_request'' =
             contents db ''organization_request'' @ [organization] \<and>
           map_of organization ''email'' = Some (TextV (trim (toLowerCase (email b)))) \<and>
           console (organization_request_post parse send db req_body) =
             (case send organization of
                None \<Rightarrow> []
              | Some err \<Rightarrow> [(''Failed to send organization request email to admin'', err)]) \<and>
           res (organization_request_post parse send db req_body) =
             \<lparr>statusCode = 200, body = Some []\<rparr> \<and>
           thrown (organization_request_post parse send db req_body) = None"
proof -
  let ?e = "trim (toLowerCase (email b))"
  have e: "normalized_email b = ?e" by (simp add: normalized_email_def)
  from assms(5) obtain db' where ins:
    "insertInto ''organization_request'' (request_values b (normalized_email b)) db = (Inr rows, db')"
    by (cases "insertInto ''organization_request'' (request_values b ?e) db") (simp add: e)
  from inserted_request_email[OF assms(1) ins] obtain organization where
    rows: "rows = [organization]"
    and em: "map_of organization ''email'' = Some (TextV (normalized_email b))"
    and cont: "contents db' = (contents db)(''organization_request'' :=
                 contents db ''organization_request'' @ [organization])"
    by auto
  have "organization_request_post parse send db req_body =
      \<lparr>database = db',
       console = (case send organization of
                    None \<Rightarrow> []
                  | Some err \<Rightarrow> [(''Failed to send organization request email to admin'', err)]),
       res = \<lparr>statusCode = 200, body = Some []\<rparr>,
       thrown = None\<rparr>"
    using post_admitted[of db parse req_body b organization db' send] assms ins rows
    by (simp add: e)
  with em cont show ?thesis by (simp add: e)
qed


theorem admitted_request_is_stored_witness:
  "\<exists>organization.
     contents (database (organization_request_post Some (\<lambda>organization. Some (Error ''SMTP down''))
        migrated_database helping_hands)) ''organization_request'' = [organization] \<and>
     map_of organization ''email'' = Some (TextV ''info@helpers.org'') \<and>
     console (organization_request_post Some (\<lambda>organization. Some (Error ''SMTP down''))
        migrated_database helping_hands) =
       [(''Failed to send organization request email to admin'', Error ''SMTP down'')] \<and>
     res (organization_request_post Some (\<lambda>organization. Some (Error ''SMTP down''))
        migrated_database helping_hands) = \<lparr>statusCode = 200, body = Some []\<rparr> \<and>
     thrown (organization_request_post Some (\<lambda>organization. Some (Error ''SMTP down''))
        migrated_database helping_hands) = None"
proof -
  have n: "trim (toLowerCase (email helping_hands)) = ''info@helpers.org''"
    using norm_hh by (simp add: normalized_email_def)
  from admitted_request_is_stored[of migrated_database Some helping_hands helping_hands
      "[helping_hands_request]" "\<lambda>organization. Some (Error ''SMTP down'')"]
  show ?thesis
    by (simp add: n migrated_database_simps insert_helping_hands(1))
qed

text \<open>
  Without the condition on the insert the statement of C3 fails: a payload with a fresh email
  and the url of a pending request passes both lookups, the insert violates the unique
  constraint on \<^verbatim>\<open>url\<close>, the handler throws the database error and the table keeps
  its rows.
\<close>

theorem admitted_request_counterexample:
  "catalog database_with_request = migrated_catalog \<and>
   \<not> has_email database_with_request ''organization_account''
       (trim (toLowerCase (email same_url_signup))) \<and>
   \<not> has_email database_with_request ''organization_request''
       (trim (toLowerCase (email same_url_signup))) \<and>
   thrown (organization_request_post Some (\<lambda>organization. None) database_with_request
       same_url_signup) = Some (DatabaseError (UniqueViolation ''url'')) \<and>
   contents (database (organization_request_post Some (\<lambda>organization. None)
       database_with_request same_url_signup)) ''organization_request'' =
     contents database_with_request ''organization_request''"
proof -
  have n: "trim (toLowerCase (email same_url_signup)) = ''second@helpers.org''"
    using norm_su by (simp add: normalized_email_def)
  show ?thesis
    by (simp add: n same_url_rejected database_with_request_simps has_email_def
        helping_hands_request_def)
qed

text \<open>
  C4. On a successful admission (neither table holds the normalized email and the database
  accepts the row) the handler does not throw and the response has the status 200 and the
  empty object \<^verbatim>\<open>{}\<close> as its body (\<^verbatim>\<open>res.json({})\<close>), which is not the stored
  record.
\<close>

theorem admission_responds_empty_object:
  assumes "catalog db = migrated_catalog" and "parse req_body = Some b"
    and "\<not> has_email db ''organization_account'' (trim (toLowerCase (email b)))"
    and "\<not> has_email db ''organization_request'' (trim (toLowerCase (email b)))"
    and "fst (insertInto ''organization_request''
                (request_values b (trim (toLowerCase (email b)))) db) = Inr rows"
  shows "\<exists>organization.
           contents (database (organization_request_post parse send db req_body))
               ''organization_request'' =
             contents db ''organization_request'' @ [organization] \<and>
           thrown (organization_request_post parse send db req_body) = None \<and>
           res (organization_request_post parse send db req_body) =
             \<lparr>statusCode = 200, body = Some []\<rparr> \<and>
           body (res (organization_request_post parse send db req_body)) \<noteq> Some organization"
proof -
  let ?e = "trim (toLowerCase (email b))"
  have e: "normalized_email b = ?e" by (simp add: normalized_email_def)
  from assms(5) obtain db' where ins:
    "insertInto ''organization_request'' (request_values b (normalized_email b)) db = (Inr rows, db')"
    by (cases "insertInto ''organization_request'' (request_values b ?e) db") (simp add: e)
  from inserted_request_email[OF assms(1) ins] obtain organization where
    rows: "rows = [organization]"
    and em: "map_of organization ''email'' = Some (TextV (normalized_email b))"
    and cont: "contents db' = (contents db)(''organization_request'' :=
                 contents db ''organization_request'' @ [organization])"
    by auto
  from em have ne: "organization \<noteq> []" by auto
  have "organization_request_post parse send db req_body =
      \<lparr>database = db',
       console = (case send organization of
                    None \<Rightarrow> []
                  | Some err \<Rightarrow> [(''Failed to send organization request email to admin'', err)]),
       res = \<lparr>statusCode = 200, body = Some []\<rparr>,
       thrown = None\<rparr>"
    using post_admitted[of db parse req_body b organization db' send] assms ins rows
    by (simp add: e)
  with cont ne show ?thesis by auto
qed

theorem admission_responds_empty_object_witness:
  "\<exists>organization.
     contents (database (organization_request_post Some (\<lambda>organization. None) migrated_database
        helping_hands)) ''organization_request'' = [organization] \<and>
     thrown (organization_request_post Some (\<lambda>organization. None) migrated_database
        helping_hands) = None \<and>
     res (organization_request_post Some (\<lambda>organization. None) migrated_database
        helping_hands) = \<lparr>statusCode = 200, body = Some []\<rparr> \<and>
     body (res (organization_request_post Some (\<lambda>organization. None) migrated_database
        helping_hands)) \<noteq> Some organization"
proof -
  have n: "trim (toLowerCase (email helping_hands)) = ''info@helpers.org''"
    using norm_hh by (simp add: normalized_email_def)
  from admission_responds_empty_object[of migrated_database Some helping_hands helping_hands
      "[helping_hands_request]" "\<lambda>organization. None"]
  show ?thesis
    by (simp add: n migrated_database_simps insert_helping_hands(1))
qed

text \<open>
  The body of the response is not the stored record: after the admission of the Helping
  Hands payload the table holds the record, with its eight columns, and the body is empty.
\<close>

theorem response_body_counterexample:
  "thrown (organization_request_post Some (\<lambda>organization. None) migrated_database
      helping_hands) = None \<and>
   contents (database (organization_request_post Some (\<lambda>organization. None) migrated_database
      helping_hands)) ''organization_request'' = [helping_hands_request] \<and>
   body (res (organization_request_post Some (\<lambda>organization. None) migrated_database
      helping_hands)) \<noteq> Some helping_hands_request"
  by (simp add: first_signup insert_helping_hands helping_hands_request_def)

subsection \<open>Uniqueness of emails and urls\<close>

text \<open>
  C9. The migration creates the tables on the empty database; in
  \<^verbatim>\<open>organization_account\<close> and in \<^verbatim>\<open>organization_request\<close> the columns
  \<^verbatim>\<open>email\<close> and \<^verbatim>\<open>url\<close> are declared unique and not null; and in every state
  reached from the migrated database by inserts, updates and deletes, no two rows of either
  table share an email or a url, and no row lacks one or holds NULL there.
\<close>

theorem email_and_url_unique:
  "up empty_database = Inr (migrated_database :: 'n database) \<and>
   column_declared organization_account_table ''email'' (\<lambda>c. is_unique c \<and> is_not_null c) \<and>
   column_declared organization_account_table ''url'' (\<lambda>c. is_unique c \<and> is_not_null c) \<and>
   column_declared organization_request_table ''email'' (\<lambda>c. is_unique c \<and> is_not_null c) \<and>
   column_declared organization_request_table ''url'' (\<lambda>c. is_unique c \<and> is_not_null c) \<and>
   (reachable_db (db :: 'n database) \<longrightarrow>
      (\<forall>t\<in>{''organization_account'', ''organization_request''}. \<forall>c\<in>{''email'', ''url''}.
          distinct (column_values db t c) \<and>
          None \<notin> set (column_values db t c) \<and> Some NullV \<notin> set (column_values db t c)))"
proof (intro conjI impI)
  show "up empty_database = Inr (migrated_database :: 'n database)" by (rule up_empty_database)
  show "column_declared organization_account_table ''email'' (\<lambda>c. is_unique c \<and> is_not_null c)"
    and "column_declared organization_account_table ''url'' (\<lambda>c. is_unique c \<and> is_not_null c)"
    and "column_declared organization_request_table ''email'' (\<lambda>c. is_unique c \<and> is_not_null c)"
    and "column_declared organization_request_table ''url'' (\<lambda>c. is_unique c \<and> is_not_null c)"
    by (simp_all add: column_declared_def table_defs)
  assume "reachable_db db"
  from reachable_db_invariant[OF this]
  have inv: "unique_columns_hold db" and cat: "catalog db = migrated_catalog" by auto
  have *: "distinct (column_values db (table_name td) (col_name cd)) \<and>
           None \<notin> set (column_values db (table_name td) (col_name cd)) \<and>
           Some NullV \<notin> set (column_values db (table_name td) (col_name cd))"
    if "td \<in> set migrated_catalog" "cd \<in> set (columns td)" "is_unique cd" "is_not_null cd"
    for td cd
  proof -
    from inv cat that
    have "distinct (column_values db (table_name td) (col_name cd)) \<and>
          (\<forall>v\<in>set (column_values db (table_name td) (col_name cd)). v \<noteq> None \<and> v \<noteq> Some NullV)"
      unfolding unique_columns_hold_def by simp
    then show ?thesis by blast
  qed
  have a: "organization_account_table \<in> set migrated_catalog"
    and r: "organization_request_table \<in> set migrated_catalog"
    by (simp_all add: migrated_catalog_def)
  have ta: "table_name organization_account_table = ''organization_account''"
    and tr: "table_name organization_request_table = ''organization_request''"
    by (simp_all add: table_defs)
  define email_col where "email_col =
    \<lparr>col_name = ''email'', col_type = Varchar (Some 128), is_primary_key = False,
     is_not_null = True, is_unique = True\<rparr>"
  define url_col where "url_col =
    \<lparr>col_name = ''url'', col_type = Varchar (Some 256), is_primary_key = False,
     is_not_null = True, is_unique = True\<rparr>"
  have cols: "email_col \<in> set (columns organization_account_table)"
    "url_col \<in> set (columns organization_account_table)"
    "email_col \<in> set (columns organization_request_table)"
    "url_col \<in> set (columns organization_request_table)"
    by (simp_all add: table_defs email_col_def url_col_def)
  have props: "is_unique email_col" "is_not_null email_col" "is_unique url_col"
    "is_not_null url_col" "col_name email_col = ''email''" "col_name url_col = ''url''"
    by (simp_all add: email_col_def url_col_def)
  from *[OF a cols(1) props(1,2)] *[OF a cols(2) props(3,4)]
    *[OF r cols(3) props(1,2)] *[OF r cols(4) props(3,4)]
  show "\<forall>t\<in>{''organization_account'', ''organization_request''}. \<forall>c\<in>{''email'', ''url''}.
          distinct (column_values db t c) \<and>
          None \<notin> set (column_values db t c) \<and> Some NullV \<notin> set (column_values db t c)"
    unfolding ta tr props(5,6) by simp
qed




theorem email_and_url_unique_witness:
  "reachable_db (snd (insertInto ''organization_request''
      (request_values food_bank ''contact@foodbank.org'') database_with_request)) \<and>
   column_values (snd (insertInto ''organization_request''
      (request_values food_bank ''contact@foodbank.org'') database_with_request))
      ''organization_request'' ''email'' =
     [Some (TextV ''info@helpers.org''), Some (TextV ''contact@foodbank.org'')] \<and>
   distinct (column_values (snd (insertInto ''organization_request''
      (request_values food_bank ''contact@foodbank.org'') database_with_request))
      ''organization_request'' ''url'')"
proof -
  let ?db = "snd (insertInto ''organization_request''
      (request_values food_bank ''contact@foodbank.org'') database_with_request)"
  have "reachable_db (migrated_database :: int database)"
    by (rule reachable_db.migrated) (rule up_empty_database)
  then have "reachable_db database_with_request"
    unfolding database_with_request_eq by (rule reachable_db.inserted)
  then have r: "reachable_db ?db" by (rule reachable_db.inserted)
  have c: "column_values ?db ''organization_request'' ''email'' =
     [Some (TextV ''info@helpers.org''), Some (TextV ''contact@foodbank.org'')]"
    by (simp add: column_values_def eval_defs database_with_request_simps food_bank_def
        helping_hands_request_def)
  from email_and_url_unique[of ?db] r
  have d: "distinct (column_values ?db ''organization_request'' ''url'')" by simp
  show ?thesis by (rule conjI[OF r conjI[OF c d]])
qed

end
